theory Spec2Isabelle
  imports Main "HOL-Library.AList"
begin

section \<open>The mail-merge tool \<^verbatim>\<open>emailer.py\<close>\<close>

text \<open>
  The development follows \<^verbatim>\<open>src/emailer.py\<close>: \<^verbatim>\<open>get_data\<close> (the row
  consolidator), \<^verbatim>\<open>send\<close> (the message composer) and \<^verbatim>\<open>send_batch\<close> (the batch
  sender). The fields of the table are \<^typ>\<open>string\<close>s: \<^verbatim>\<open>get_data\<close> only compares
  them. The text that \<^verbatim>\<open>send\<close> works on is a list of Unicode code points. The
  libraries (template engine, Markdown converter, HTML parser, \<^verbatim>\<open>email\<close>,
  \<^verbatim>\<open>smtplib\<close>) and \<^verbatim>\<open>str.casefold\<close> are parameters. The converter and the
  parser are functions (both accept any text); every call into the template engine,
  \<^verbatim>\<open>email\<close> and \<^verbatim>\<open>smtplib\<close> has its error branch.
\<close>

subsection \<open>Errors\<close>

datatype error =
    KeyError                \<comment> \<open>a dictionary lookup or \<^verbatim>\<open>del\<close> of an absent key\<close>
  | TypeError               \<comment> \<open>\<^verbatim>\<open>f(**row)\<close> with a key that is not a string\<close>
  | ValueError              \<comment> \<open>for instance a header value of more than one line\<close>
  | TemplateError string    \<comment> \<open>raised by the template engine\<close>
  | TransportError string   \<comment> \<open>raised by the mail relay (connection, login, send, quit)\<close>
  | OtherError string       \<comment> \<open>any other exception of a library, by its class name\<close>

subsection \<open>Python dictionaries\<close>

text \<open>
  A \<^verbatim>\<open>dict\<close> keeps its keys in insertion order and a key at most once, so it is an
  association list: \<^const>\<open>map_of\<close> reads it, \<^const>\<open>AList.update\<close> is
  \<^verbatim>\<open>d[k] = v\<close> (in place for a key that is there, at the end for a new one).
\<close>

type_synonym ('k, 'v) dict = "('k \<times> 'v) list"

definition keys :: "('k, 'v) dict \<Rightarrow> 'k list" where
  "keys d = map fst d"

definition dict_values :: "('k, 'v) dict \<Rightarrow> 'v list" where
  "dict_values d = map snd d"

text \<open>\<^verbatim>\<open>d.setdefault(k, []).append(v)\<close>\<close>

definition setdefault_append :: "'k \<Rightarrow> 'v \<Rightarrow> ('k, 'v list) dict \<Rightarrow> ('k, 'v list) dict" where
  "setdefault_append k v d =
     (case map_of d k of
        None \<Rightarrow> d @ [(k, [v])]
      | Some vs \<Rightarrow> AList.update k (vs @ [v]) d)"

text \<open>\<^verbatim>\<open>del d[k]\<close>\<close>

definition del_key :: "'k \<Rightarrow> ('k, 'v) dict \<Rightarrow> error + ('k, 'v) dict" where
  "del_key k d = (if k \<in> set (keys d) then Inr (AList.delete k d) else Inl KeyError)"

subsection \<open>\<^verbatim>\<open>csv.DictReader\<close>\<close>

text \<open>
  The input of \<^verbatim>\<open>get_data\<close> is the file as \<^verbatim>\<open>csv.reader\<close> yields it: a list of
  records, each a list of fields; a blank line is the record \<open>[]\<close>. The first record,
  when there is one, is the header. A key of a row is a column name or \<^verbatim>\<open>None\<close>
  (\<^verbatim>\<open>restkey\<close>, under which a row longer than the header keeps its extra fields); a
  value is a field, \<^verbatim>\<open>None\<close> (\<^verbatim>\<open>restval\<close>, for a row shorter than the header) or
  the list of extra fields.
\<close>

datatype key = Col string | RestKey

datatype cell = Val string | NoneVal | ListVal "string list"

type_synonym row = "(key, cell) dict"

type_synonym mapping = "(key, cell list) dict"

definition fieldnames :: "string list list \<Rightarrow> string list option" where
  "fieldnames recs = (case recs of [] \<Rightarrow> None | h # _ \<Rightarrow> Some h)"

text \<open>\<^verbatim>\<open>dict(zip(fieldnames, row))\<close>\<close>

definition dict_zip :: "string list \<Rightarrow> string list \<Rightarrow> row" where
  "dict_zip fns r = fold (\<lambda>(k, v) d. AList.update (Col k) (Val v) d) (zip fns r) []"

text \<open>The body of \<^verbatim>\<open>DictReader.__next__\<close> for one non-blank record.\<close>

definition dict_row :: "string list \<Rightarrow> string list \<Rightarrow> row" where
  "dict_row fns r =
     (let d = dict_zip fns r; lf = length fns; lr = length r
      in if lf < lr then AList.update RestKey (ListVal (drop lf r)) d
         else if lf > lr then fold (\<lambda>k d. AList.update (Col k) NoneVal d) (drop lr fns) d
         else d)"

text \<open>The rows the reader yields: blank records are skipped.\<close>

definition dict_rows :: "string list list \<Rightarrow> row list" where
  "dict_rows recs =
     (case recs of
        [] \<Rightarrow> []
      | h # rs \<Rightarrow> map (dict_row h) (filter (\<lambda>r. r \<noteq> []) rs))"

subsection \<open>Case folding of the grouping column's name\<close>

text \<open>
  \<^verbatim>\<open>get_data\<close> calls \<^verbatim>\<open>casefold\<close> on \<^verbatim>\<open>groupby\<close> only, which is one of the
  literals \<^verbatim>\<open>Group\<close> and \<^verbatim>\<open>EmailAddress\<close>. On such text, case folding turns the
  letters \<^verbatim>\<open>A\<close> to \<^verbatim>\<open>Z\<close> into lower case and leaves the rest.
\<close>

definition lower_char :: "char \<Rightarrow> char" where
  "lower_char c =
     (case map_of (zip ''ABCDEFGHIJKLMNOPQRSTUVWXYZ'' ''abcdefghijklmnopqrstuvwxyz'') c of
        Some l \<Rightarrow> l
      | None \<Rightarrow> c)"

definition casefold :: "string \<Rightarrow> string" where
  "casefold s = map lower_char s"

subsection \<open>\<^verbatim>\<open>get_data\<close>\<close>

text \<open>
  The first loop: \<^verbatim>\<open>groups.setdefault(row[groupby], []).append(row)\<close> for each row. A
  row without the grouping column raises \<^verbatim>\<open>KeyError\<close>.
\<close>

fun group_rows :: "string \<Rightarrow> row list \<Rightarrow> (cell, row list) dict \<Rightarrow> error + (cell, row list) dict" where
  "group_rows groupby [] groups = Inr groups"
| "group_rows groupby (row # rows) groups =
     (case map_of row (Col groupby) of
        None \<Rightarrow> Inl KeyError
      | Some g \<Rightarrow> group_rows groupby rows (setdefault_append g row groups))"

text \<open>The two inner loops: every entry of every member row is appended under its key.\<close>

definition add_member :: "row \<Rightarrow> mapping \<Rightarrow> mapping" where
  "add_member member members = fold (\<lambda>(k, v) m. setdefault_append k v m) member members"

definition collect :: "row list \<Rightarrow> mapping" where
  "collect grp = fold add_member grp []"

text \<open>The second loop, over \<^verbatim>\<open>groups.values()\<close>.\<close>

fun consolidate :: "string \<Rightarrow> row list list \<Rightarrow> mapping list \<Rightarrow> error + mapping list" where
  "consolidate groupby [] consolidated = Inr consolidated"
| "consolidate groupby (grp # gs) consolidated =
     (let members = collect grp
      in if casefold groupby = ''group''
         then (case del_key (Col groupby) members of
                 Inl e \<Rightarrow> Inl e
               | Inr members' \<Rightarrow> consolidate groupby gs (consolidated @ [members']))
         else consolidate groupby gs (consolidated @ [members]))"

text \<open>
  \<^verbatim>\<open>reader.fieldnames and groupby not in reader.fieldnames\<close>: \<^verbatim>\<open>None\<close> (an empty
  file) and the empty list (a blank first line) are both false.
\<close>

definition choose_groupby :: "string list option \<Rightarrow> string" where
  "choose_groupby fns =
     (case fns of
        None \<Rightarrow> ''Group''
      | Some h \<Rightarrow> if h \<noteq> [] \<and> ''Group'' \<notin> set h then ''EmailAddress'' else ''Group'')"

definition get_data :: "string list list \<Rightarrow> error + mapping list" where
  "get_data recs =
     (let groupby = choose_groupby (fieldnames recs)
      in case group_rows groupby (dict_rows recs) [] of
           Inl e \<Rightarrow> Inl e
         | Inr groups \<Rightarrow> consolidate groupby (dict_values groups) [])"

subsection \<open>Unicode text\<close>

text \<open>
  A Python \<^verbatim>\<open>str\<close> is the list of its code points, as integers. \<open>lit\<close> is the \<^verbatim>\<open>str\<close> of
  an ASCII literal of the source.
\<close>

type_synonym unicode = "int list"

definition lit :: "string \<Rightarrow> unicode" where
  "lit s = map of_char s"

text \<open>
  The characters that \<^verbatim>\<open>str.strip()\<close> removes, those for which \<^verbatim>\<open>str.isspace\<close>
  holds: U+0009 to U+000D, U+001C to U+0020, U+0085, U+00A0, U+1680, U+2000 to U+200A,
  U+2028, U+2029, U+202F, U+205F and U+3000.
\<close>

definition is_space :: "int \<Rightarrow> bool" where
  "is_space c = (c \<in> set [9, 10, 11, 12, 13, 28, 29, 30, 31, 32, 133, 160, 5760,
                           8192, 8193, 8194, 8195, 8196, 8197, 8198, 8199, 8200, 8201, 8202,
                           8232, 8233, 8239, 8287, 12288])"

definition strip :: "unicode \<Rightarrow> unicode" where
  "strip s = rev (dropWhile is_space (rev (dropWhile is_space s)))"

definition startswith :: "unicode \<Rightarrow> unicode \<Rightarrow> bool" where
  "startswith s p = (take (length p) s = p)"

text \<open>The colon, U+003A.\<close>

definition colon :: int where
  "colon = 58"

text \<open>\<^verbatim>\<open>s.split(":", 1)\<close>: at most one split, at the first colon.\<close>

definition split_colon1 :: "unicode \<Rightarrow> unicode list" where
  "split_colon1 s =
     (if colon \<in> set s
      then [takeWhile (\<lambda>c. c \<noteq> colon) s, tl (dropWhile (\<lambda>c. c \<noteq> colon) s)]
      else [s])"

subsection \<open>The parsed document\<close>

text \<open>
  \<^verbatim>\<open>BeautifulSoup(html_body, "lxml")\<close> is a tree of tags and strings. A string node is
  a \<^verbatim>\<open>NavigableString\<close> or one of its subclasses; \<^verbatim>\<open>Comment\<close> is one of them.
\<close>

datatype kind = NavigableString | Comment | CData | ProcessingInstruction | Declaration | Doctype

datatype node = Tag unicode "(unicode \<times> unicode) list" "node list" | NavStr kind unicode

text \<open>The string nodes below a node, in document order.\<close>

fun strings :: "node \<Rightarrow> (kind \<times> unicode) list" where
  "strings (NavStr k s) = [(k, s)]"
| "strings (Tag name attrs children) = concat (map strings children)"

text \<open>
  \<^verbatim>\<open>soup.find_all(string=True)\<close>: every string node of the document, of whatever
  class, in document order.
\<close>

definition all_strings :: "node list \<Rightarrow> (kind \<times> unicode) list" where
  "all_strings soup = concat (map strings soup)"

text \<open>\<^verbatim>\<open>soup.find(string=f)\<close>: the first string node, in document order, that \<open>f\<close> accepts.\<close>

definition find_string :: "(kind \<times> unicode \<Rightarrow> bool) \<Rightarrow> node list \<Rightarrow> (kind \<times> unicode) option" where
  "find_string f soup = List.find f (all_strings soup)"

text \<open>
  \<^verbatim>\<open>subject_comment.extract()\<close> takes the node that \<^verbatim>\<open>find\<close> returned out of the
  tree. That node is the first one in document order that the filter accepts.
\<close>

fun extract_first :: "(kind \<times> unicode \<Rightarrow> bool) \<Rightarrow> node list \<Rightarrow> node list" where
  "extract_first f [] = []"
| "extract_first f (NavStr k s # ns) =
     (if f (k, s) then ns else NavStr k s # extract_first f ns)"
| "extract_first f (Tag name attrs children # ns) =
     (if list_ex f (all_strings children)
      then Tag name attrs (extract_first f children) # ns
      else Tag name attrs children # extract_first f ns)"

subsection \<open>Messages and the mail relay\<close>

text \<open>
  The message that \<^verbatim>\<open>send\<close> builds: the sender and the recipients as they are
  assigned to \<^verbatim>\<open>From\<close> and \<^verbatim>\<open>To\<close>, the \<^verbatim>\<open>Subject\<close> as the \<^verbatim>\<open>email\<close> library
  stores it, and the two bodies as they are handed to \<^verbatim>\<open>set_content\<close> and
  \<^verbatim>\<open>add_alternative\<close>.
\<close>

record message =
  msg_from :: unicode
  msg_to :: "cell list"
  msg_subject :: unicode
  text_part :: unicode
  html_part :: unicode

text \<open>The SMTP session: what the relay has accepted so far is its \<open>outbox\<close>.\<close>

record smtp =
  tls :: bool
  logged_in :: bool
  outbox :: "message list"
  closed :: bool

definition new_session :: smtp where
  "new_session = \<lparr>tls = False, logged_in = False, outbox = [], closed = False\<rparr>"

text \<open>
  The parameters. \<open>gfm_to_html\<close> is the Markdown converter and \<open>BeautifulSoup\<close> the
  HTML parser. \<open>str_casefold\<close> is \<^verbatim>\<open>str.casefold\<close>, the full case folding of
  Unicode. The next five are the \<^verbatim>\<open>email\<close> library: \<^verbatim>\<open>msg["From"] = v\<close>,
  \<^verbatim>\<open>msg["To"] = v\<close>, \<^verbatim>\<open>msg["Subject"] = v\<close>, \<^verbatim>\<open>msg.set_content(v)\<close> and
  \<^verbatim>\<open>msg.add_alternative(v, subtype="html")\<close>; each can raise (a header value of more
  than one line gives \<^verbatim>\<open>ValueError\<close>, an address that the parser cannot read gives
  \<^verbatim>\<open>IndexError\<close>), and \<open>header_Subject\<close> returns the subject that the message then
  has (encoded words are decoded). The last five are the relay's answers to connecting,
  \<^verbatim>\<open>starttls\<close>, \<^verbatim>\<open>login\<close>, \<^verbatim>\<open>send_message\<close> and the \<^verbatim>\<open>QUIT\<close> of
  \<^verbatim>\<open>SMTP.__exit__\<close>. For an answer of type \<^typ>\<open>error option\<close>, \<open>None\<close> is
  success.
\<close>

record libs =
  gfm_to_html :: "unicode \<Rightarrow> unicode"
  BeautifulSoup :: "unicode \<Rightarrow> node list"
  str_casefold :: "unicode \<Rightarrow> unicode"
  header_From :: "unicode \<Rightarrow> error option"
  header_To :: "cell list \<Rightarrow> error option"
  header_Subject :: "unicode \<Rightarrow> error + unicode"
  set_content :: "unicode \<Rightarrow> error option"
  add_alternative :: "unicode \<Rightarrow> error option"
  smtp_connect :: "error option"
  smtp_starttls :: "error option"
  smtp_login :: "unicode \<Rightarrow> unicode \<Rightarrow> error option"
  smtp_send_message :: "smtp \<Rightarrow> message \<Rightarrow> error option"
  smtp_quit :: "smtp \<Rightarrow> error option"

text \<open>\<^verbatim>\<open>server.send_message(msg)\<close>\<close>

definition send_message :: "libs \<Rightarrow> smtp \<Rightarrow> message \<Rightarrow> error option \<times> smtp" where
  "send_message env server msg =
     (case smtp_send_message env server msg of
        Some e \<Rightarrow> (Some e, server)
      | None \<Rightarrow> (None, server\<lparr>outbox := outbox server @ [msg]\<rparr>))"

subsection \<open>\<^verbatim>\<open>send\<close>\<close>

text \<open>
  \<^verbatim>\<open>lambda x: isinstance(x, Comment) and x.strip().casefold().startswith("subject")\<close>
\<close>

definition subject_like :: "libs \<Rightarrow> kind \<times> unicode \<Rightarrow> bool" where
  "subject_like env x =
     (fst x = Comment \<and> startswith (str_casefold env (strip (snd x))) (lit ''subject''))"

text \<open>
  Lines 90 to 98: the value assigned to \<^verbatim>\<open>Subject\<close>, and the document after the
  search. \<^verbatim>\<open>if subject_comment\<close> is false for \<^verbatim>\<open>None\<close> and for an empty string.
\<close>

definition take_subject :: "libs \<Rightarrow> node list \<Rightarrow> unicode \<times> node list" where
  "take_subject env soup =
     (case find_string (subject_like env) soup of
        Some (k, s) \<Rightarrow>
          if s \<noteq> []
          then (strip (last (split_colon1 s)), extract_first (subject_like env) soup)
          else ([], soup)
      | None \<Rightarrow> ([], soup))"

text \<open>Lines 85 to 101: the message that \<^verbatim>\<open>send\<close> builds, or the exception raised.\<close>

definition compose :: "libs \<Rightarrow> unicode \<Rightarrow> cell list \<Rightarrow> unicode \<Rightarrow> error + message" where
  "compose env sender recipients body =
     (case header_From env sender of
        Some e \<Rightarrow> Inl e
      | None \<Rightarrow>
     (case header_To env recipients of
        Some e \<Rightarrow> Inl e
      | None \<Rightarrow>
     (let html_body = gfm_to_html env body;
          soup = BeautifulSoup env html_body;
          (subj, soup') = take_subject env soup
      in case header_Subject env subj of
           Inl e \<Rightarrow> Inl e
         | Inr subject \<Rightarrow>
     (let text_body = concat (map snd (all_strings soup'))
      in case set_content env text_body of
           Some e \<Rightarrow> Inl e
         | None \<Rightarrow>
     (case add_alternative env html_body of
        Some e \<Rightarrow> Inl e
      | None \<Rightarrow>
          Inr \<lparr>msg_from = sender, msg_to = recipients, msg_subject = subject,
               text_part = text_body, html_part = html_body\<rparr>)))))"

definition send :: "libs \<Rightarrow> smtp \<Rightarrow> unicode \<Rightarrow> cell list \<Rightarrow> unicode \<Rightarrow> error option \<times> smtp" where
  "send env server sender recipients body =
     (case compose env sender recipients body of
        Inl e \<Rightarrow> (Some e, server)
      | Inr msg \<Rightarrow> send_message env server msg)"

subsection \<open>\<^verbatim>\<open>send_batch\<close>\<close>

text \<open>
  \<^verbatim>\<open>template.render(**row)\<close>: a keyword must be a string, so a mapping with the key
  \<^verbatim>\<open>None\<close> raises \<^verbatim>\<open>TypeError\<close>; otherwise the template engine returns the text or
  raises.
\<close>

type_synonym template = "mapping \<Rightarrow> error + unicode"

definition render :: "template \<Rightarrow> mapping \<Rightarrow> error + unicode" where
  "render template row = (if RestKey \<in> set (keys row) then Inl TypeError else template row)"

text \<open>The loop of lines 71 to 73. An exception leaves the loop with the session as it is.\<close>

fun send_rows :: "libs \<Rightarrow> template \<Rightarrow> unicode \<Rightarrow> smtp \<Rightarrow> mapping list \<Rightarrow> error option \<times> smtp" where
  "send_rows env template sender server [] = (None, server)"
| "send_rows env template sender server (row # data) =
     (case render template row of
        Inl e \<Rightarrow> (Some e, server)
      | Inr body \<Rightarrow>
          (case map_of row (Col ''EmailAddress'') of
             None \<Rightarrow> (Some KeyError, server)
           | Some recipients \<Rightarrow>
               (case send env server sender recipients body of
                  (Some e, server') \<Rightarrow> (Some e, server')
                | (None, server') \<Rightarrow> send_rows env template sender server' data)))"

text \<open>
  Leaving the \<^verbatim>\<open>with\<close> block, with or without an exception: \<^verbatim>\<open>SMTP.__exit__\<close>
  sends \<^verbatim>\<open>QUIT\<close> and closes the session. When \<^verbatim>\<open>QUIT\<close> raises (an answer other
  than 221 gives \<^verbatim>\<open>SMTPResponseException\<close>), that exception leaves the block, in the
  place of the one that ended the loop, if any. (A server that has disconnected is not an
  error: \<^verbatim>\<open>__exit__\<close> catches \<^verbatim>\<open>SMTPServerDisconnected\<close>.)
\<close>

definition quit :: "libs \<Rightarrow> error option \<times> smtp \<Rightarrow> error option \<times> smtp" where
  "quit env r =
     (case smtp_quit env (snd r) of
        Some e \<Rightarrow> (Some e, (snd r)\<lparr>closed := True\<rparr>)
      | None \<Rightarrow> (fst r, (snd r)\<lparr>closed := True\<rparr>))"

definition send_batch ::
  "libs \<Rightarrow> mapping list \<Rightarrow> template \<Rightarrow> unicode \<Rightarrow> unicode \<Rightarrow> unicode option \<Rightarrow> error option \<times> smtp" where
  "send_batch env data template username password sender =
     (let sender' = (case sender of None \<Rightarrow> username | Some s \<Rightarrow> s)
      in case smtp_connect env of
           Some e \<Rightarrow> (Some e, new_session\<lparr>closed := True\<rparr>)
         | None \<Rightarrow>
             quit env
               (case smtp_starttls env of
                  Some e \<Rightarrow> (Some e, new_session)
                | None \<Rightarrow>
                    (case smtp_login env username password of
                       Some e \<Rightarrow> (Some e, new_session\<lparr>tls := True\<rparr>)
                     | None \<Rightarrow>
                         send_rows env template sender'
                           (new_session\<lparr>tls := True, logged_in := True\<rparr>) data)))"

subsection \<open>\<^verbatim>\<open>run\<close>\<close>

text \<open>
  The command runner: the template is loaded, the table is read, the batch is sent. The
  result is the exception that ended the run, if any, and the messages transmitted.
\<close>

definition run ::
  "libs \<Rightarrow> error + template \<Rightarrow> string list list \<Rightarrow> unicode \<Rightarrow> unicode \<Rightarrow> unicode option
     \<Rightarrow> error option \<times> message list" where
  "run env get_template recs username password sender =
     (case get_template of
        Inl e \<Rightarrow> (Some e, [])
      | Inr template \<Rightarrow>
          (case get_data recs of
             Inl e \<Rightarrow> (Some e, [])
           | Inr data \<Rightarrow>
               (let r = send_batch env data template username password sender
                in (fst r, outbox (snd r)))))"

subsection \<open>Notions used to state the properties\<close>

text \<open>The distinct elements of a list, in the order in which they are first seen.\<close>

definition first_seen :: "'a list \<Rightarrow> 'a list" where
  "first_seen xs = fold (\<lambda>x seen. if x \<in> set seen then seen else seen @ [x]) xs []"

text \<open>\<^verbatim>\<open>d.get(k, [])\<close>\<close>

definition lookup :: "('k, 'v list) dict \<Rightarrow> 'k \<Rightarrow> 'v list" where
  "lookup d k = (case map_of d k of None \<Rightarrow> [] | Some vs \<Rightarrow> vs)"

text \<open>The grouping-column values of the rows that have one, in row order.\<close>

definition group_values :: "string \<Rightarrow> row list \<Rightarrow> cell list" where
  "group_values groupby rows = List.map_filter (\<lambda>r. map_of r (Col groupby)) rows"

text \<open>The member rows of a group, in row order.\<close>

definition members_of :: "string \<Rightarrow> row list \<Rightarrow> cell \<Rightarrow> row list" where
  "members_of groupby rows g = filter (\<lambda>r. map_of r (Col groupby) = Some g) rows"

text \<open>The \<^verbatim>\<open>Group\<close> entry is dropped when the rows were grouped by it.\<close>

definition drop_group :: "string \<Rightarrow> mapping \<Rightarrow> mapping" where
  "drop_group groupby members =
     (if groupby = ''Group'' then AList.delete (Col ''Group'') members else members)"

text \<open>One mapping per distinct grouping value, in first-seen order.\<close>

definition grouped :: "string \<Rightarrow> row list \<Rightarrow> mapping list" where
  "grouped groupby rows =
     map (\<lambda>g. drop_group groupby (collect (members_of groupby rows g)))
       (first_seen (group_values groupby rows))"

text \<open>A list without its first element that satisfies \<open>f\<close>.\<close>

fun remove_first :: "('a \<Rightarrow> bool) \<Rightarrow> 'a list \<Rightarrow> 'a list" where
  "remove_first f [] = []"
| "remove_first f (x # xs) = (if f x then xs else x # remove_first f xs)"

text \<open>The text after the first colon of a string, when it has a colon.\<close>

definition after_first_colon :: "unicode \<Rightarrow> unicode option" where
  "after_first_colon s =
     (if colon \<in> set s then Some (tl (dropWhile (\<lambda>c. c \<noteq> colon) s)) else None)"

text \<open>
  The specification speaks of the document "serialized back to HTML". The code has no
  such step; the following serialisation of a document (tags with their attributes and
  children, comments between \<^verbatim>\<open><!--\<close> and \<^verbatim>\<open>-->\<close>, text as it is) is what the
  specification's sentence is compared with.
\<close>

fun serialize_node :: "node \<Rightarrow> unicode" where
  "serialize_node (NavStr k s) =
     (case k of
        NavigableString \<Rightarrow> s
      | Comment \<Rightarrow> lit ''<!--'' @ s @ lit ''-->''
      | CData \<Rightarrow> lit ''<![CDATA['' @ s @ lit '']]>''
      | ProcessingInstruction \<Rightarrow> lit ''<?'' @ s @ lit ''>''
      | Declaration \<Rightarrow> lit ''<?'' @ s @ lit ''?>''
      | Doctype \<Rightarrow> lit ''<!DOCTYPE '' @ s @ lit ''>'')"
| "serialize_node (Tag name attrs children) =
     lit ''<'' @ name
       @ concat (map (\<lambda>(a, v). lit '' '' @ a @ lit ''='' @ [34] @ v @ [34]) attrs) @ lit ''>''
       @ concat (map serialize_node children) @ lit ''</'' @ name @ lit ''>''"

definition serialize :: "node list \<Rightarrow> unicode" where
  "serialize soup = concat (map serialize_node soup)"

subsection \<open>Example libraries and inputs\<close>

text \<open>
  \<^verbatim>\<open>str.casefold\<close> on ASCII text lowers the letters \<^verbatim>\<open>A\<close> to \<^verbatim>\<open>Z\<close>; this
  function is used for the case folding of the ASCII examples below.
\<close>

definition ascii_casefold :: "unicode \<Rightarrow> unicode" where
  "ascii_casefold s = map (\<lambda>c. if 65 \<le> c \<and> c \<le> 90 then c + 32 else c) s"

text \<open>
  What the \<^verbatim>\<open>email\<close> library does with the subjects assigned in the examples below:
  a value with a line feed inside is refused with \<^verbatim>\<open>ValueError\<close>, the encoded word
  \<^verbatim>\<open>=?utf-8?q?Hello?=\<close> is stored as \<^verbatim>\<open>Hello\<close>, and one line of plain ASCII text is
  stored as it is.
\<close>

definition example_Subject :: "unicode \<Rightarrow> error + unicode" where
  "example_Subject v =
     (if 10 \<in> set v then Inl ValueError
      else if v = lit ''=?utf-8?q?Hello?='' then Inr (lit ''Hello'')
      else Inr v)"

text \<open>
  Libraries for a concrete run: the converter returns \<open>html\<close>, the parser returns
  \<open>soup\<close>, the \<^verbatim>\<open>email\<close> library accepts the addresses and the bodies, and the
  relay accepts everything.
\<close>

definition libs_for :: "unicode \<Rightarrow> node list \<Rightarrow> libs" where
  "libs_for html soup =
     \<lparr>gfm_to_html = (\<lambda>body. html), BeautifulSoup = (\<lambda>h. soup),
      str_casefold = ascii_casefold,
      header_From = (\<lambda>v. None), header_To = (\<lambda>v. None), header_Subject = example_Subject,
      set_content = (\<lambda>v. None), add_alternative = (\<lambda>v. None),
      smtp_connect = None, smtp_starttls = None, smtp_login = (\<lambda>u p. None),
      smtp_send_message = (\<lambda>server msg. None), smtp_quit = (\<lambda>server. None)\<rparr>"

text \<open>
  A body with a subject directive, the HTML that the converter returns for it (a raw HTML
  line passes through, with a line end), and the parsed document.
\<close>

definition hello_body :: unicode where
  "hello_body = lit ''<!-- Subject: Hello --><p>Hi</p>''"

definition hello_html :: unicode where
  "hello_html = lit ''<!-- Subject: Hello --><p>Hi</p>\<newline>''"

definition hello_soup :: "node list" where
  "hello_soup =
     [NavStr Comment (lit '' Subject: Hello ''),
      Tag (lit ''html'') [] [Tag (lit ''body'') []
        [Tag (lit ''p'') [] [NavStr NavigableString (lit ''Hi'')],
         NavStr NavigableString (lit ''\<newline>'')]]]"

text \<open>A document with two subject directives.\<close>

definition two_subjects_html :: unicode where
  "two_subjects_html = lit ''<!-- subject: First --><!-- subject: Second --><p>Hi</p>\<newline>''"

definition two_subjects_soup :: "node list" where
  "two_subjects_soup =
     [NavStr Comment (lit '' subject: First ''),
      NavStr Comment (lit '' subject: Second ''),
      Tag (lit ''html'') [] [Tag (lit ''body'') []
        [Tag (lit ''p'') [] [NavStr NavigableString (lit ''Hi'')],
         NavStr NavigableString (lit ''\<newline>'')]]]"

text \<open>A template whose rendering fails for the group of \<^verbatim>\<open>Bob\<close>.\<close>

definition bob_fails :: template where
  "bob_fails row =
     (if map_of row (Col ''Name'') = Some [Val ''Bob''] then Inl (TemplateError ''undefined'')
      else Inr (lit ''Hi''))"

text \<open>A relay that accepts every message and answers \<^verbatim>\<open>QUIT\<close> with an error.\<close>

definition bad_quit_libs :: libs where
  "bad_quit_libs =
     (libs_for (lit ''<p>Hi</p>'') [NavStr NavigableString (lit ''Hi'')])
       \<lparr>smtp_quit := (\<lambda>server. Some (TransportError ''SMTPResponseException''))\<rparr>"

text \<open>A relay that refuses the message to \<^verbatim>\<open>b@x\<close>.\<close>

definition refusing_libs :: libs where
  "refusing_libs =
     (libs_for (lit ''<p>Hi</p>'') [NavStr NavigableString (lit ''Hi'')])
       \<lparr>smtp_send_message :=
          (\<lambda>server msg. if msg_to msg = [Val ''b@x''] then Some (TransportError ''refused'') else None)\<rparr>"

section \<open>Properties of \<^verbatim>\<open>get_data\<close>\<close>

subsection \<open>Dictionaries and grouping\<close>


lemma first_seen_Nil [simp]: "first_seen [] = []"
  by (simp add: first_seen_def)

lemma first_seen_snoc:
  "first_seen (xs @ [x]) = (if x \<in> set (first_seen xs) then first_seen xs else first_seen xs @ [x])"
  by (simp add: first_seen_def)

lemma set_first_seen [simp]: "set (first_seen xs) = set xs"
  by (induction xs rule: rev_induct) (auto simp: first_seen_snoc)

lemma distinct_first_seen [simp]: "distinct (first_seen xs)"
  by (induction xs rule: rev_induct) (auto simp: first_seen_snoc)

lemma length_first_seen: "length (first_seen xs) = card (set xs)"
  using distinct_card [OF distinct_first_seen, of xs] by simp

lemma first_seen_remdups: "first_seen xs = rev (remdups (rev xs))"
  by (induction xs rule: rev_induct) (auto simp: first_seen_snoc)

lemma keys_setdefault_append:
  "keys (setdefault_append k v d) = (if k \<in> set (keys d) then keys d else keys d @ [k])"
  by (auto simp: setdefault_append_def keys_def map_of_eq_None_iff update_keys
      split: option.splits dest: weak_map_of_SomeI)

lemma map_of_setdefault_append:
  "map_of (setdefault_append k v d) k' =
     (if k' = k then Some (lookup d k @ [v]) else map_of d k')"
  by (auto simp: setdefault_append_def lookup_def update_conv' map_add_def split: option.splits)

lemma lookup_setdefault_append:
  "lookup (setdefault_append k v d) k' = (if k' = k then lookup d k @ [v] else lookup d k')"
  by (simp add: lookup_def map_of_setdefault_append)

lemma distinct_setdefault_append:
  "distinct (keys d) \<Longrightarrow> distinct (keys (setdefault_append k v d))"
  by (simp add: keys_setdefault_append)


lemma group_rows_snoc:
  "group_rows gb (rows @ [r]) acc =
     (case group_rows gb rows acc of
        Inl e \<Rightarrow> Inl e
      | Inr G \<Rightarrow> (case map_of r (Col gb) of
                    None \<Rightarrow> Inl KeyError
                  | Some g \<Rightarrow> Inr (setdefault_append g r G)))"
  by (induction rows arbitrary: acc) (auto split: option.splits sum.splits)

lemma group_rows_KeyError:
  "\<exists>r\<in>set rows. map_of r (Col gb) = None \<Longrightarrow> group_rows gb rows acc = Inl KeyError"
  by (induction rows arbitrary: acc) (auto split: option.splits)

lemma group_values_snoc:
  "group_values gb (rows @ [r]) =
     group_values gb rows @ (case map_of r (Col gb) of None \<Rightarrow> [] | Some g \<Rightarrow> [g])"
  by (simp add: group_values_def List.map_filter_def split: option.splits)

lemma members_of_snoc:
  "members_of gb (rows @ [r]) g =
     members_of gb rows g @ (if map_of r (Col gb) = Some g then [r] else [])"
  by (simp add: members_of_def)

lemma setdefault_append_map_new:
  "k \<notin> set ks \<Longrightarrow>
   setdefault_append k v (map (\<lambda>x. (x, f x)) ks) = map (\<lambda>x. (x, f x)) ks @ [(k, [v])]"
  by (auto simp: setdefault_append_def map_of_eq_None_iff image_image split: option.splits
      dest!: map_of_SomeD)

lemma update_map_old:
  "distinct ks \<Longrightarrow> AList.update k w (map (\<lambda>x. (x, f x)) ks) =
     (if k \<in> set ks then map (\<lambda>x. (x, if x = k then w else f x)) ks
      else map (\<lambda>x. (x, f x)) ks @ [(k, w)])"
  by (induction ks) auto

lemma map_of_map_graph: "map_of (map (\<lambda>x. (x, f x)) ks) k = (if k \<in> set ks then Some (f k) else None)"
  by (induction ks) auto

lemma setdefault_append_map_old:
  "distinct ks \<Longrightarrow> k \<in> set ks \<Longrightarrow>
   setdefault_append k v (map (\<lambda>x. (x, f x)) ks) =
     map (\<lambda>x. (x, if x = k then f x @ [v] else f x)) ks"
  by (simp add: setdefault_append_def map_of_map_graph update_map_old)

lemma set_group_values:
  "set (group_values gb rows) = {g. \<exists>r\<in>set rows. map_of r (Col gb) = Some g}"
  by (induction rows rule: rev_induct) (auto simp: group_values_snoc group_values_def List.map_filter_def split: option.splits)

lemma members_of_empty:
  "g \<notin> set (group_values gb rows) \<Longrightarrow> members_of gb rows g = []"
  by (auto simp: set_group_values members_of_def filter_empty_conv)

lemma group_rows_closed:
  assumes "\<forall>r\<in>set rows. map_of r (Col gb) \<noteq> None"
  shows "group_rows gb rows [] =
           Inr (map (\<lambda>g. (g, members_of gb rows g)) (first_seen (group_values gb rows)))"
  using assms
proof (induction rows rule: rev_induct)
  case Nil
  show ?case by (simp add: group_values_def List.map_filter_def)
next
  case (snoc r rows)
  then obtain g where g: "map_of r (Col gb) = Some g" by auto
  from snoc have IH: "group_rows gb rows [] =
      Inr (map (\<lambda>g. (g, members_of gb rows g)) (first_seen (group_values gb rows)))"
    by simp
  show ?case
  proof (cases "g \<in> set (group_values gb rows)")
    case True
    then show ?thesis
      by (simp add: group_rows_snoc IH g group_values_snoc first_seen_snoc
          setdefault_append_map_old members_of_snoc)
  next
    case False
    then show ?thesis
      by (auto simp add: group_rows_snoc IH g group_values_snoc first_seen_snoc
          setdefault_append_map_new members_of_snoc members_of_empty)
  qed
qed


lemma fst_set_update: "fst ` set (AList.update k v al) = insert k (fst ` set al)"
  using dom_update [of k v al] by (simp add: dom_map_of_conv_image_fst)

lemma fst_set_setdefault_append: "fst ` set (setdefault_append k v d) = insert k (fst ` set d)"
  by (auto simp: setdefault_append_def fst_set_update split: option.splits dest: map_of_SomeD)

lemma lookup_Nil [simp]: "lookup [] k = []"
  by (simp add: lookup_def)

lemma fold_setdefault_append_lookup:
  "distinct (map fst r) \<Longrightarrow>
   lookup (fold (\<lambda>(k, v) m. setdefault_append k v m) r m) k =
     lookup m k @ (case map_of r k of None \<Rightarrow> [] | Some v \<Rightarrow> [v])"
proof (induction r arbitrary: m)
  case Nil
  show ?case by simp
next
  case (Cons kv r)
  obtain k' v' where kv: "kv = (k', v')" by (cases kv)
  from Cons.prems kv have d: "distinct (map fst r)" and nk: "k' \<notin> fst ` set r" by auto
  from nk have none: "map_of r k' = None" by (simp add: map_of_eq_None_iff)
  show ?case
    by (simp add: kv Cons.IH [OF d] lookup_setdefault_append none)
qed

lemma fold_setdefault_append_keys:
  "set (keys (fold (\<lambda>(k, v) m. setdefault_append k v m) r m)) = set (keys m) \<union> set (keys r)"
proof (induction r arbitrary: m)
  case Nil
  show ?case by (simp add: keys_def)
next
  case (Cons kv r)
  have "fst ` set (setdefault_append (fst kv) (snd kv) m) = insert (fst kv) (fst ` set m)"
    by (rule fst_set_setdefault_append)
  then show ?case using Cons.IH [of "setdefault_append (fst kv) (snd kv) m"]
    by (simp add: keys_def case_prod_unfold)
qed

lemma fold_setdefault_append_distinct:
  "distinct (keys m) \<Longrightarrow> distinct (keys (fold (\<lambda>(k, v) m. setdefault_append k v m) r m))"
  by (induction r arbitrary: m) (auto simp: distinct_setdefault_append)

lemma collect_Nil [simp]: "collect [] = []"
  by (simp add: collect_def)

lemma collect_snoc: "collect (rows @ [r]) = add_member r (collect rows)"
  by (simp add: collect_def)

lemma distinct_collect: "distinct (keys (collect rows))"
  by (induction rows rule: rev_induct)
     (simp_all add: collect_snoc add_member_def fold_setdefault_append_distinct, simp add: keys_def)

lemma keys_collect: "set (keys (collect rows)) = (\<Union>r\<in>set rows. set (keys r))"
  by (induction rows rule: rev_induct)
     (auto simp: collect_snoc add_member_def fold_setdefault_append_keys, simp add: keys_def)

lemma lookup_collect:
  "\<forall>r\<in>set rows. distinct (map fst r) \<Longrightarrow>
   lookup (collect rows) k = List.map_filter (\<lambda>r. map_of r k) rows"
  by (induction rows rule: rev_induct)
     (auto simp: collect_snoc add_member_def fold_setdefault_append_lookup List.map_filter_def
        split: option.splits)

lemma map_of_lookup:
  "k \<in> set (keys d) \<Longrightarrow> map_of d k = Some (lookup d k)"
  by (auto simp: lookup_def keys_def map_of_eq_None_iff split: option.splits)

lemma distinct_fold_update:
  "distinct (map fst d) \<Longrightarrow> distinct (map fst (fold (\<lambda>x d. AList.update (f x) (g x) d) xs d))"
  by (induction xs arbitrary: d) (auto simp: distinct_update)

lemma dom_fold_update:
  "fst ` set (fold (\<lambda>x d. AList.update (f x) (g x) d) xs d) = fst ` set d \<union> f ` set xs"
  by (induction xs arbitrary: d) (simp_all add: fst_set_update)

lemma dict_zip_alt:
  "dict_zip fns r = fold (\<lambda>x d. AList.update (Col (fst x)) (Val (snd x)) d) (zip fns r) []"
  by (simp add: dict_zip_def case_prod_unfold)

lemma distinct_dict_row: "distinct (map fst (dict_row h r))"
  by (simp add: dict_row_def Let_def dict_zip_alt distinct_update distinct_fold_update)

lemma keys_dict_zip: "set (keys (dict_zip h r)) = Col ` set (take (length r) h)"
proof -
  have "map fst (zip h r) = take (length r) h"
    by (simp add: map_fst_zip_take min_def)
  then have z: "fst ` set (zip h r) = set (take (length r) h)"
    by (metis set_map)
  have "set (map fst (dict_zip h r)) = (\<lambda>x. Col (fst x)) ` set (zip h r)"
    by (simp add: dict_zip_alt dom_fold_update)
  also have "\<dots> = Col ` (fst ` set (zip h r))"
    by (rule image_image [symmetric])
  also note z
  finally show ?thesis
    by (simp only: keys_def)
qed

lemma keys_dict_row:
  "set (keys (dict_row h r)) = Col ` set h \<union> (if length h < length r then {RestKey} else {})"
proof (cases "length h < length r")
  case True
  have "set (keys (dict_row h r)) = insert RestKey (set (keys (dict_zip h r)))"
    using True by (simp add: keys_def dict_row_def Let_def fst_set_update)
  with True show ?thesis by (simp add: keys_dict_zip)
next
  case False
  have "set (keys (dict_row h r)) =
          set (keys (dict_zip h r)) \<union> Col ` set (drop (length r) h)"
    using False by (cases "length r < length h") (simp_all add: keys_def dict_row_def Let_def dom_fold_update)
  also have "\<dots> = Col ` (set (take (length r) h) \<union> set (drop (length r) h))"
    by (simp add: keys_dict_zip image_Un)
  also have "set (take (length r) h) \<union> set (drop (length r) h) = set h"
    using set_append [of "take (length r) h" "drop (length r) h"] by simp
  finally show ?thesis using False by simp
qed


lemma casefold_Group: "casefold ''Group'' = ''group''"
  by (simp add: casefold_def lower_char_def)

lemma casefold_EmailAddress: "casefold ''EmailAddress'' \<noteq> ''group''"
  by (simp add: casefold_def)

lemma choose_groupby_cases:
  "choose_groupby fns = ''Group'' \<or> choose_groupby fns = ''EmailAddress''"
  by (simp add: choose_groupby_def split: option.splits)

lemma consolidate_closed:
  assumes "gb = ''Group'' \<or> gb = ''EmailAddress''"
    and "\<forall>grp\<in>set gs. Col gb \<in> set (keys (collect grp))"
  shows "consolidate gb gs acc = Inr (acc @ map (\<lambda>grp. drop_group gb (collect grp)) gs)"
  using assms(2)
proof (induction gs arbitrary: acc)
  case Nil
  show ?case by simp
next
  case (Cons grp gs)
  from assms(1) show ?case
  proof
    assume "gb = ''Group''"
    with Cons show ?thesis
      by (simp add: casefold_Group del_key_def drop_group_def)
  next
    assume "gb = ''EmailAddress''"
    with Cons show ?thesis
      by (simp add: casefold_EmailAddress drop_group_def)
  qed
qed

lemma members_of_nonempty:
  "g \<in> set (group_values gb rows) \<Longrightarrow> members_of gb rows g \<noteq> []"
  by (auto simp: set_group_values members_of_def filter_empty_conv)

lemma members_of_key:
  "r \<in> set (members_of gb rows g) \<Longrightarrow> map_of r (Col gb) = Some g \<and> r \<in> set rows"
  by (simp add: members_of_def)

lemma groupby_in_collect:
  assumes "g \<in> set (group_values gb rows)"
  shows "Col gb \<in> set (keys (collect (members_of gb rows g)))"
proof -
  from members_of_nonempty [OF assms] obtain r where r: "r \<in> set (members_of gb rows g)"
    by (cases "members_of gb rows g") auto
  then have "map_of r (Col gb) = Some g" by (simp add: members_of_key)
  then have "Col gb \<in> set (keys r)" by (auto simp: keys_def dest: map_of_SomeD intro: rev_image_eqI)
  with r show ?thesis by (auto simp: keys_collect)
qed

lemma get_data_closed:
  assumes "\<forall>r\<in>set (dict_rows recs). map_of r (Col (choose_groupby (fieldnames recs))) \<noteq> None"
  shows "get_data recs =
           Inr (grouped (choose_groupby (fieldnames recs)) (dict_rows recs))"
proof -
  let ?gb = "choose_groupby (fieldnames recs)"
  let ?rows = "dict_rows recs"
  have "\<forall>grp\<in>set (map (members_of ?gb ?rows) (first_seen (group_values ?gb ?rows))).
          Col ?gb \<in> set (keys (collect grp))"
    by (auto simp: groupby_in_collect)
  from consolidate_closed [OF choose_groupby_cases this, of "[]"]
  show ?thesis
    by (simp add: get_data_def Let_def group_rows_closed [OF assms] dict_values_def grouped_def
        o_def)
qed

lemma get_data_KeyError:
  assumes "\<exists>r\<in>set (dict_rows recs). map_of r (Col (choose_groupby (fieldnames recs))) = None"
  shows "get_data recs = Inl KeyError"
  by (simp add: get_data_def Let_def group_rows_KeyError [OF assms])

lemma map_of_dict_row_Col:
  "map_of (dict_row h r) (Col c) \<noteq> None \<longleftrightarrow> c \<in> set h"
proof -
  have "map_of (dict_row h r) (Col c) \<noteq> None \<longleftrightarrow> Col c \<in> set (keys (dict_row h r))"
    by (simp add: map_of_eq_None_iff keys_def)
  also have "\<dots> \<longleftrightarrow> c \<in> set h"
    by (auto simp: keys_dict_row)
  finally show ?thesis .
qed

lemma dict_rows_Cons: "dict_rows (h # rs) = map (dict_row h) (filter (\<lambda>r. r \<noteq> []) rs)"
  by (simp add: dict_rows_def)

lemma fieldnames_Some: "fieldnames recs = Some h \<longleftrightarrow> (\<exists>rs. recs = h # rs)"
  by (cases recs) (auto simp: fieldnames_def)

subsection \<open>The shape of the consolidated mappings\<close>

lemma map_filter_all_Some:
  "\<forall>r\<in>set rows. f r \<noteq> None \<Longrightarrow> map Some (List.map_filter f rows) = map f rows"
  by (induction rows) (auto simp: List.map_filter_def)

lemma map_filter_const:
  "\<forall>r\<in>set rows. f r = Some g \<Longrightarrow> List.map_filter f rows = replicate (length rows) g"
  by (induction rows) (auto simp: List.map_filter_def)

lemma group_values_all:
  "\<forall>r\<in>set rows. map_of r (Col gb) \<noteq> None \<Longrightarrow>
   map Some (group_values gb rows) = map (\<lambda>r. map_of r (Col gb)) rows"
  unfolding group_values_def by (rule map_filter_all_Some)

lemma dict_rows_distinct: "r \<in> set (dict_rows recs) \<Longrightarrow> distinct (map fst r)"
  by (cases recs) (auto simp: dict_rows_def distinct_dict_row)

lemma dict_rows_have_column:
  assumes "fieldnames recs = Some h" and "c \<in> set h" and "r \<in> set (dict_rows recs)"
  shows "map_of r (Col c) \<noteq> None"
proof -
  from assms(1) obtain rs where "recs = h # rs" by (auto simp: fieldnames_Some)
  with assms(3) obtain x where "r = dict_row h x" by (auto simp: dict_rows_Cons)
  with assms(2) show ?thesis using map_of_dict_row_Col [of h x c] by simp
qed

lemma map_of_collect:
  assumes "\<forall>r\<in>set grp. distinct (map fst r)" and "k \<in> set (keys (collect grp))"
  shows "map_of (collect grp) k = Some (List.map_filter (\<lambda>r. map_of r k) grp)"
  using map_of_lookup [OF assms(2)] lookup_collect [OF assms(1), of k] by simp

lemma members_of_subset: "set (members_of gb rows g) \<subseteq> set rows"
  by (auto simp: members_of_def)

lemma column_in_collect:
  assumes "grp \<noteq> []" and "\<forall>r\<in>set grp. map_of r k \<noteq> None"
  shows "k \<in> set (keys (collect grp))"
proof -
  from assms(1) obtain r where r: "r \<in> set grp" by (cases grp) auto
  with assms(2) obtain v where "map_of r k = Some v" by auto
  then have "k \<in> set (keys r)"
    by (auto simp: keys_def dest: map_of_SomeD intro: rev_image_eqI)
  with r show ?thesis by (auto simp: keys_collect)
qed

lemma collect_column:
  assumes "\<forall>r\<in>set grp. distinct (map fst r)" and "grp \<noteq> []"
    and "\<forall>r\<in>set grp. map_of r k \<noteq> None"
  shows "\<exists>vs. map_of (collect grp) k = Some vs \<and> map Some vs = map (\<lambda>r. map_of r k) grp"
  using map_of_collect [OF assms(1) column_in_collect [OF assms(2,3)]]
    map_filter_all_Some [OF assms(3)] by simp

lemma choose_groupby_Group: "''Group'' \<in> set h \<Longrightarrow> choose_groupby (Some h) = ''Group''"
  by (simp add: choose_groupby_def)

lemma choose_groupby_EmailAddress:
  "''Group'' \<notin> set h \<Longrightarrow> ''EmailAddress'' \<in> set h \<Longrightarrow> choose_groupby (Some h) = ''EmailAddress''"
  by (auto simp: choose_groupby_def)

lemma get_data_Group_closed:
  assumes "fieldnames recs = Some h" and "''Group'' \<in> set h"
  shows "get_data recs = Inr (grouped ''Group'' (dict_rows recs))"
  using get_data_closed [of recs] dict_rows_have_column [OF assms]
  by (simp add: assms(1) choose_groupby_Group [OF assms(2)])

lemma get_data_EmailAddress_closed:
  assumes "fieldnames recs = Some h" and "''Group'' \<notin> set h" and "''EmailAddress'' \<in> set h"
  shows "get_data recs = Inr (grouped ''EmailAddress'' (dict_rows recs))"
  using get_data_closed [of recs] dict_rows_have_column [OF assms(1,3)]
  by (simp add: assms(1) choose_groupby_EmailAddress [OF assms(2,3)])

lemma length_grouped: "length (grouped gb rows) = card (set (group_values gb rows))"
  by (simp add: grouped_def length_first_seen)

lemma keys_delete: "set (keys (AList.delete k d)) = set (keys d) - {k}"
  by (auto simp: keys_def delete_keys)

lemma get_data_Inr_closed:
  assumes "get_data recs = Inr ms"
  shows "ms = grouped (choose_groupby (fieldnames recs)) (dict_rows recs)"
proof -
  have "\<forall>r\<in>set (dict_rows recs). map_of r (Col (choose_groupby (fieldnames recs))) \<noteq> None"
  proof (rule ccontr)
    assume "\<not> ?thesis"
    then have "\<exists>r\<in>set (dict_rows recs). map_of r (Col (choose_groupby (fieldnames recs))) = None"
      by simp
    then have "get_data recs = Inl KeyError" by (rule get_data_KeyError)
    with assms show False by simp
  qed
  from get_data_closed [OF this] assms show ?thesis by simp
qed

lemma keys_short_row:
  assumes "fieldnames recs = Some h" and "list_all (\<lambda>r. length r \<le> length h) (tl recs)"
    and "r \<in> set (dict_rows recs)"
  shows "set (keys r) = Col ` set h"
proof -
  from assms(1) obtain rs where recs: "recs = h # rs" by (auto simp: fieldnames_Some)
  with assms(3) obtain x where x: "r = dict_row h x" "x \<in> set rs" by (auto simp: dict_rows_Cons)
  with assms(2) recs have "\<not> length h < length x" by (auto simp: list_all_iff)
  with x show ?thesis by (simp add: keys_dict_row)
qed

lemma map_of_drop_group:
  "k \<noteq> Col ''Group'' \<Longrightarrow> map_of (drop_group gb m) k = map_of m k"
  by (simp add: drop_group_def delete_conv')

lemma keys_drop_group:
  "set (keys (drop_group gb m)) = (if gb = ''Group'' then set (keys m) - {Col ''Group''} else set (keys m))"
  by (simp add: drop_group_def keys_delete)

lemma choose_groupby_not_Group:
  "choose_groupby (Some h) \<noteq> ''Group'' \<Longrightarrow> ''Group'' \<notin> set h"
  by (simp add: choose_groupby_def split: if_splits)

section \<open>Properties of \<^verbatim>\<open>send\<close> and \<^verbatim>\<open>send_batch\<close>\<close>

subsection \<open>Finding and extracting the subject comment\<close>

lemma remove_first_append:
  "remove_first f (xs @ ys) =
     (if list_ex f xs then remove_first f xs @ ys else xs @ remove_first f ys)"
  by (induction xs) auto

lemma remove_first_none: "\<not> list_ex f xs \<Longrightarrow> remove_first f xs = xs"
  by (induction xs) auto

lemma all_strings_Nil [simp]: "all_strings [] = []"
  by (simp add: all_strings_def)

lemma all_strings_NavStr [simp]: "all_strings (NavStr k s # ns) = (k, s) # all_strings ns"
  by (simp add: all_strings_def)

lemma all_strings_Tag [simp]:
  "all_strings (Tag name attrs children # ns) = all_strings children @ all_strings ns"
  by (simp add: all_strings_def)

lemma all_strings_extract_first:
  "all_strings (extract_first f soup) = remove_first f (all_strings soup)"
  by (induction f soup rule: extract_first.induct) (simp_all add: remove_first_append)

lemma find_remove_first_split:
  assumes "\<not> list_ex f pre" and "f x"
  shows "List.find f (pre @ x # rest) = Some x" and "remove_first f (pre @ x # rest) = pre @ rest"
  using assms by (induction pre) auto

lemma find_None_remove_first: "List.find f xs = None \<Longrightarrow> remove_first f xs = xs"
  by (rule remove_first_none) (simp add: find_None_iff list_ex_iff)

lemma find_Some_split:
  "List.find f xs = Some x \<Longrightarrow> \<exists>pre rest. xs = pre @ x # rest \<and> \<not> list_ex f pre \<and> f x"
proof (induction xs)
  case Nil
  then show ?case by simp
next
  case (Cons a xs)
  show ?case
  proof (cases "f a")
    case True
    with Cons.prems have "a = x" by simp
    with True have "a # xs = [] @ x # xs \<and> \<not> list_ex f [] \<and> f x" by simp
    then show ?thesis by blast
  next
    case False
    with Cons obtain pre rest where "xs = pre @ x # rest" "\<not> list_ex f pre" "f x" by auto
    with False have "a # xs = (a # pre) @ x # rest \<and> \<not> list_ex f (a # pre) \<and> f x" by simp
    then show ?thesis by blast
  qed
qed

lemma strip_Nil [simp]: "strip [] = []"
  by (simp add: strip_def)

lemma last_split_colon1:
  "last (split_colon1 s) = (case after_first_colon s of Some t \<Rightarrow> t | None \<Rightarrow> s)"
  by (simp add: split_colon1_def after_first_colon_def)

lemma after_first_colon_Nil [simp]: "after_first_colon [] = None"
  by (simp add: after_first_colon_def)

lemma fst_take_subject:
  "fst (take_subject env soup) =
     (case find_string (subject_like env) soup of
        None \<Rightarrow> []
      | Some (k, s) \<Rightarrow> strip (case after_first_colon s of Some t \<Rightarrow> t | None \<Rightarrow> s))"
proof (cases "find_string (subject_like env) soup")
  case None
  then show ?thesis by (simp add: take_subject_def)
next
  case (Some x)
  obtain k s where x: "x = (k, s)" by (cases x)
  show ?thesis
  proof (cases "s = []")
    case True
    with Some x show ?thesis by (simp add: take_subject_def)
  next
    case False
    with Some x show ?thesis by (simp add: take_subject_def last_split_colon1)
  qed
qed

lemma remove_first_empty_text:
  "List.find f xs = Some (k, []) \<Longrightarrow>
   concat (map snd (remove_first f xs)) = concat (map snd xs)"
proof -
  assume "List.find f xs = Some (k, [])"
  from find_Some_split [OF this] obtain pre rest where
    xs: "xs = pre @ (k, []) # rest" and pre: "\<not> list_ex f pre" and f: "f (k, [])" by blast
  from find_remove_first_split(2) [OF pre f, of rest] xs show ?thesis by simp
qed

lemma text_take_subject:
  "concat (map snd (all_strings (snd (take_subject env soup)))) =
     concat (map snd (remove_first (subject_like env) (all_strings soup)))"
proof (cases "find_string (subject_like env) soup")
  case None
  then have "remove_first (subject_like env) (all_strings soup) = all_strings soup"
    by (simp add: find_string_def find_None_remove_first)
  with None show ?thesis by (simp add: take_subject_def)
next
  case (Some x)
  obtain k s where x: "x = (k, s)" by (cases x)
  show ?thesis
  proof (cases "s = []")
    case True
    with Some x have "List.find (subject_like env) (all_strings soup) = Some (k, [])"
      by (simp add: find_string_def)
    from remove_first_empty_text [OF this] Some x True show ?thesis
      by (simp add: take_subject_def)
  next
    case False
    with Some x show ?thesis by (simp add: take_subject_def all_strings_extract_first)
  qed
qed

lemma compose_Inr:
  assumes "compose env sender recipients body = Inr msg"
  shows "header_From env sender = None"
    and "header_To env recipients = None"
    and "header_Subject env (fst (take_subject env (BeautifulSoup env (gfm_to_html env body)))) =
           Inr (msg_subject msg)"
    and "msg_from msg = sender"
    and "msg_to msg = recipients"
    and "text_part msg =
           concat (map snd (remove_first (subject_like env)
             (all_strings (BeautifulSoup env (gfm_to_html env body)))))"
    and "html_part msg = gfm_to_html env body"
    and "set_content env (text_part msg) = None"
    and "add_alternative env (html_part msg) = None"
  using assms text_take_subject [of env "BeautifulSoup env (gfm_to_html env body)"]
  by (auto simp: compose_def Let_def case_prod_unfold split: option.splits sum.splits)

lemma send_None:
  assumes "send env server sender recipients body = (None, server')"
  shows "\<exists>msg. compose env sender recipients body = Inr msg \<and>
           smtp_send_message env server msg = None \<and>
           server' = server\<lparr>outbox := outbox server @ [msg]\<rparr>"
  using assms by (auto simp: send_def send_message_def split: sum.splits option.splits)

lemma send_Some:
  assumes "send env server sender recipients body = (Some e, server')"
  shows "server' = server"
  using assms by (auto simp: send_def send_message_def split: sum.splits option.splits)

lemma send_refused:
  assumes "compose env sender recipients body = Inr msg"
    and "smtp_send_message env server msg = Some e"
  shows "send env server sender recipients body = (Some e, server)"
  using assms by (simp add: send_def send_message_def)

subsection \<open>The sending loop\<close>

lemma send_rows_append:
  "send_rows env t sender s (xs @ ys) =
     (case send_rows env t sender s xs of
        (None, s') \<Rightarrow> send_rows env t sender s' ys
      | (Some e, s') \<Rightarrow> (Some e, s'))"
  by (induction xs arbitrary: s) (auto split: sum.splits option.splits prod.splits)

lemma send_rows_outbox:
  "send_rows env t sender s rows = (None, s') \<Longrightarrow>
   \<exists>msgs. outbox s' = outbox s @ msgs \<and>
     list_all2 (\<lambda>row msg. \<exists>body recipients.
        render t row = Inr body \<and> map_of row (Col ''EmailAddress'') = Some recipients \<and>
        compose env sender recipients body = Inr msg) rows msgs"
proof (induction rows arbitrary: s)
  case Nil
  then show ?case by simp
next
  case (Cons row rows)
  from Cons.prems obtain body recipients s1 where
    r: "render t row = Inr body" and a: "map_of row (Col ''EmailAddress'') = Some recipients"
    and step: "send env s sender recipients body = (None, s1)"
    and rest: "send_rows env t sender s1 rows = (None, s')"
    by (auto split: sum.splits option.splits prod.splits)
  from send_None [OF step] obtain msg where
    msg: "compose env sender recipients body = Inr msg" "outbox s1 = outbox s @ [msg]" by auto
  from Cons.IH [OF rest] obtain msgs where
    msgs: "outbox s' = outbox s1 @ msgs"
      "list_all2 (\<lambda>row msg. \<exists>body recipients.
        render t row = Inr body \<and> map_of row (Col ''EmailAddress'') = Some recipients \<and>
        compose env sender recipients body = Inr msg) rows msgs" by blast
  from r a msg msgs have "outbox s' = outbox s @ (msg # msgs) \<and>
     list_all2 (\<lambda>row msg. \<exists>body recipients.
        render t row = Inr body \<and> map_of row (Col ''EmailAddress'') = Some recipients \<and>
        compose env sender recipients body = Inr msg) (row # rows) (msg # msgs)"
    by auto
  then show ?case by blast
qed

lemma send_rows_render_fails:
  "render t row = Inl e \<Longrightarrow> send_rows env t sender s (row # post) = (Some e, s)"
  by simp

lemma send_rows_relay_refuses:
  assumes "render t row = Inr body" and "map_of row (Col ''EmailAddress'') = Some recipients"
    and "compose env sender recipients body = Inr msg"
    and "smtp_send_message env s msg = Some e"
  shows "send_rows env t sender s (row # post) = (Some e, s)"
  using assms send_refused [OF assms(3,4)] by simp

lemma send_batch_connected:
  assumes "smtp_connect env = None" and "smtp_starttls env = None"
    and "smtp_login env username password = None"
  shows "send_batch env data template username password sender =
           quit env (send_rows env template (case sender of None \<Rightarrow> username | Some s \<Rightarrow> s)
                   (new_session\<lparr>tls := True, logged_in := True\<rparr>) data)"
  using assms by (simp add: send_batch_def Let_def)

subsection \<open>Tables without the required columns, and empty tables\<close>

lemma dict_rows_blank: "\<forall>r\<in>set rs. r = [] \<Longrightarrow> dict_rows (h # rs) = []"
  by (simp add: dict_rows_Cons filter_empty_conv)

lemma grouped_Nil [simp]: "grouped gb [] = []"
  by (simp add: grouped_def group_values_def List.map_filter_def)

lemma choose_groupby_absent:
  assumes "''Group'' \<notin> set h" and "''EmailAddress'' \<notin> set h"
  shows "choose_groupby (Some h) \<notin> set h"
  using assms by (simp add: choose_groupby_def)

lemma get_data_Nil: "get_data [] = Inr []"
  by (simp add: get_data_def dict_rows_def dict_values_def)

text \<open>
  Claim C2, as amended. The code defines no \<^verbatim>\<open>SchemaError\<close> and checks no schema: a
  missing grouping column shows only when a row is looked up. For a header with neither a
  \<^verbatim>\<open>Group\<close> nor an \<^verbatim>\<open>EmailAddress\<close> column, \<^verbatim>\<open>get_data\<close> raises \<^verbatim>\<open>KeyError\<close>
  when the table has a non-blank data row, and returns the empty list when it has none; a
  file with no header row at all returns the empty list.
\<close>

theorem get_data_missing_columns:
  assumes "''Group'' \<notin> set h" and "''EmailAddress'' \<notin> set h"
  shows "get_data [] = Inr [] \<and>
         get_data (h # rs) = (if \<forall>r\<in>set rs. r = [] then Inr [] else Inl KeyError)"
proof (intro conjI)
  show "get_data [] = Inr []" by (rule get_data_Nil)
next
  let ?gb = "choose_groupby (fieldnames (h # rs))"
  have gb: "?gb \<notin> set h"
    using choose_groupby_absent [OF assms] by (simp add: fieldnames_def)
  show "get_data (h # rs) = (if \<forall>r\<in>set rs. r = [] then Inr [] else Inl KeyError)"
  proof (cases "\<forall>r\<in>set rs. r = []")
    case True
    then have "dict_rows (h # rs) = []" by (rule dict_rows_blank)
    then have "get_data (h # rs) = Inr (grouped ?gb [])"
      using get_data_closed [of "h # rs"] by simp
    with True show ?thesis by simp
  next
    case False
    then obtain r where r: "r \<in> set rs" "r \<noteq> []" by auto
    then have "dict_row h r \<in> set (dict_rows (h # rs))"
      by (simp add: dict_rows_Cons)
    moreover have "map_of (dict_row h r) (Col ?gb) = None"
      using gb map_of_dict_row_Col [of h r ?gb] by simp
    ultimately have "get_data (h # rs) = Inl KeyError"
      by (intro get_data_KeyError) blast
    with False show ?thesis by simp
  qed
qed

text \<open>
  C2 at the header \<^verbatim>\<open>Name\<close>: one data row raises \<^verbatim>\<open>KeyError\<close>, a blank line alone
  gives the empty list.
\<close>

theorem get_data_missing_columns_witness:
  "''Group'' \<notin> set [''Name''] \<and> ''EmailAddress'' \<notin> set [''Name''] \<and>
   get_data [] = Inr [] \<and> get_data [[''Name''], [''x'']] = Inl KeyError \<and>
   get_data [[''Name''], []] = Inr []"
  using get_data_missing_columns [of "[''Name'']" "[[''x'']]"]
    get_data_missing_columns [of "[''Name'']" "[[]]"]
  by simp

text \<open>
  C2 as stated fails: an empty file (no header row) and a file with the single line
  \<^verbatim>\<open>Name\<close> (neither column, no data row) both return the empty list, not an error.
\<close>

theorem get_data_no_SchemaError_counterexample:
  "get_data [] = Inr [] \<and> get_data [[''Name'']] = Inr []"
  by code_simp

lemma send_batch_Nil: "outbox (snd (send_batch env [] template username password sender)) = []"
  by (simp add: send_batch_def quit_def new_session_def split: option.splits)

lemma get_data_header_only: "get_data [h] = Inr []"
  using get_data_closed [of "[h]"] by (simp add: dict_rows_def)

text \<open>
  Claim C9. A table of a header and no data row gives the empty list of mappings, without
  an error; the batch sender transmits nothing for the empty list, and so the whole run
  transmits nothing.
\<close>

theorem empty_table_sends_nothing:
  "get_data [h] = Inr [] \<and>
   outbox (snd (send_batch env [] template username password sender)) = [] \<and>
   snd (run env (Inr template) [h] username password sender) = []"
  by (simp add: get_data_header_only send_batch_Nil run_def)

text \<open>C9 for the header \<^verbatim>\<open>EmailAddress,Name\<close> and a relay that accepts everything.\<close>

theorem empty_table_sends_nothing_witness:
  "get_data [[''EmailAddress'', ''Name'']] = Inr [] \<and>
   run (libs_for (lit ''<p>Hi</p>'') [NavStr NavigableString (lit ''Hi'')])
       (Inr (\<lambda>row. Inr (lit ''Hi''))) [[''EmailAddress'', ''Name'']] (lit ''me@x'') (lit ''pw'') None
     = (None, [])"
  using empty_table_sends_nothing
    [of "[''EmailAddress'', ''Name'']" "libs_for (lit ''<p>Hi</p>'') [NavStr NavigableString (lit ''Hi'')]"
        "\<lambda>row. Inr (lit ''Hi'')" "lit ''me@x''" "lit ''pw''" None]
  by (simp add: run_def send_batch_def quit_def libs_for_def new_session_def)

subsection \<open>Grouping by \<^verbatim>\<open>Group\<close> and by \<^verbatim>\<open>EmailAddress\<close>\<close>

text \<open>
  Claim C4. For a table whose header has a column named \<^verbatim>\<open>Group\<close>, \<^verbatim>\<open>get_data\<close>
  succeeds; every row has a \<^verbatim>\<open>Group\<close> value; the result has one mapping for each
  distinct \<^verbatim>\<open>Group\<close> value, built from that value's member rows, in the order in which
  the values are first seen (\<^const>\<open>first_seen\<close> lists each value once, by
  \<open>distinct_first_seen\<close> and \<open>set_first_seen\<close>); and no mapping has a \<^verbatim>\<open>Group\<close> key.
\<close>

theorem get_data_by_Group:
  assumes "fieldnames recs = Some h" and "''Group'' \<in> set h"
  shows "\<exists>ms. get_data recs = Inr ms \<and>
           map Some (group_values ''Group'' (dict_rows recs)) =
             map (\<lambda>r. map_of r (Col ''Group'')) (dict_rows recs) \<and>
           ms = map (\<lambda>g. AList.delete (Col ''Group'')
                            (collect (members_of ''Group'' (dict_rows recs) g)))
                  (first_seen (group_values ''Group'' (dict_rows recs))) \<and>
           length ms = card (set (group_values ''Group'' (dict_rows recs))) \<and>
           (\<forall>m\<in>set ms. Col ''Group'' \<notin> set (keys m))"
proof -
  let ?rows = "dict_rows recs"
  have ms: "get_data recs = Inr (grouped ''Group'' ?rows)"
    by (rule get_data_Group_closed [OF assms])
  have vals: "map Some (group_values ''Group'' ?rows) = map (\<lambda>r. map_of r (Col ''Group'')) ?rows"
    using dict_rows_have_column [OF assms] by (intro group_values_all) blast
  have eq: "grouped ''Group'' ?rows =
      map (\<lambda>g. AList.delete (Col ''Group'') (collect (members_of ''Group'' ?rows g)))
        (first_seen (group_values ''Group'' ?rows))"
    by (simp add: grouped_def drop_group_def)
  have nokey: "\<forall>m\<in>set (grouped ''Group'' ?rows). Col ''Group'' \<notin> set (keys m)"
    by (auto simp: grouped_def drop_group_def keys_delete)
  from ms vals eq nokey length_grouped [of "''Group''" ?rows] show ?thesis
    by simp
qed

text \<open>
  C4 on the table \<^verbatim>\<open>Group,EmailAddress,Name\<close> with the rows \<^verbatim>\<open>A,a1@x,Al\<close>,
  \<^verbatim>\<open>A,a2@x,Ann\<close> and \<^verbatim>\<open>B,b1@x,Bob\<close>: two mappings, group \<^verbatim>\<open>A\<close> first.
\<close>

theorem get_data_by_Group_witness:
  "fieldnames [[''Group'', ''EmailAddress'', ''Name''], [''A'', ''a1@x'', ''Al''],
               [''A'', ''a2@x'', ''Ann''], [''B'', ''b1@x'', ''Bob'']]
     = Some [''Group'', ''EmailAddress'', ''Name''] \<and>
   ''Group'' \<in> set [''Group'', ''EmailAddress'', ''Name''] \<and>
   get_data [[''Group'', ''EmailAddress'', ''Name''], [''A'', ''a1@x'', ''Al''],
             [''A'', ''a2@x'', ''Ann''], [''B'', ''b1@x'', ''Bob'']]
     = Inr [[(Col ''EmailAddress'', [Val ''a1@x'', Val ''a2@x'']), (Col ''Name'', [Val ''Al'', Val ''Ann''])],
            [(Col ''EmailAddress'', [Val ''b1@x'']), (Col ''Name'', [Val ''Bob''])]]"
proof -
  let ?h = "[''Group'', ''EmailAddress'', ''Name'']"
  let ?recs = "[?h, [''A'', ''a1@x'', ''Al''], [''A'', ''a2@x'', ''Ann''], [''B'', ''b1@x'', ''Bob'']]"
  have f: "fieldnames ?recs = Some ?h" by (simp add: fieldnames_def)
  have g: "''Group'' \<in> set ?h" by simp
  have v: "get_data ?recs
     = Inr [[(Col ''EmailAddress'', [Val ''a1@x'', Val ''a2@x'']), (Col ''Name'', [Val ''Al'', Val ''Ann''])],
            [(Col ''EmailAddress'', [Val ''b1@x'']), (Col ''Name'', [Val ''Bob''])]]"
    by code_simp
  from get_data_by_Group [OF f g] f g v show ?thesis by simp
qed

text \<open>
  Claim C5, as amended. For a table whose header has no \<^verbatim>\<open>Group\<close> column but has
  \<^verbatim>\<open>EmailAddress\<close>, \<^verbatim>\<open>get_data\<close> groups by \<^verbatim>\<open>EmailAddress\<close>: one mapping for
  each distinct address, in first-seen order, each keeping its \<^verbatim>\<open>EmailAddress\<close>
  entry. That entry holds the address once for every member row of the group: it has one
  element only when the address stands in a single row.
\<close>

theorem get_data_by_EmailAddress:
  assumes "fieldnames recs = Some h" and "''Group'' \<notin> set h" and "''EmailAddress'' \<in> set h"
  shows "\<exists>ms. get_data recs = Inr ms \<and>
           ms = map (\<lambda>g. collect (members_of ''EmailAddress'' (dict_rows recs) g))
                  (first_seen (group_values ''EmailAddress'' (dict_rows recs))) \<and>
           length ms = card (set (group_values ''EmailAddress'' (dict_rows recs))) \<and>
           (\<forall>g\<in>set (group_values ''EmailAddress'' (dict_rows recs)).
              members_of ''EmailAddress'' (dict_rows recs) g \<noteq> [] \<and>
              map_of (collect (members_of ''EmailAddress'' (dict_rows recs) g)) (Col ''EmailAddress'') =
                Some (replicate (length (members_of ''EmailAddress'' (dict_rows recs) g)) g))"
proof -
  let ?rows = "dict_rows recs"
  let ?E = "''EmailAddress''"
  have ms: "get_data recs = Inr (grouped ?E ?rows)"
    by (rule get_data_EmailAddress_closed [OF assms])
  have eq: "grouped ?E ?rows =
      map (\<lambda>g. collect (members_of ?E ?rows g)) (first_seen (group_values ?E ?rows))"
    by (simp add: grouped_def drop_group_def)
  have entry: "members_of ?E ?rows g \<noteq> [] \<and>
      map_of (collect (members_of ?E ?rows g)) (Col ?E) =
        Some (replicate (length (members_of ?E ?rows g)) g)"
    if g: "g \<in> set (group_values ?E ?rows)" for g
  proof -
    let ?grp = "members_of ?E ?rows g"
    have d: "\<forall>r\<in>set ?grp. distinct (map fst r)"
      using members_of_subset [of ?E ?rows g] dict_rows_distinct [of _ recs] by blast
    have "\<forall>r\<in>set ?grp. map_of r (Col ?E) = Some g"
      by (simp add: members_of_key)
    then have "List.map_filter (\<lambda>r. map_of r (Col ?E)) ?grp = replicate (length ?grp) g"
      by (rule map_filter_const)
    with map_of_collect [OF d groupby_in_collect [OF g]] members_of_nonempty [OF g]
    show ?thesis by simp
  qed
  from ms eq entry length_grouped [of ?E ?rows] show ?thesis by simp
qed

text \<open>
  C5 on a table in which \<^verbatim>\<open>a@x\<close> stands in two rows and \<^verbatim>\<open>b@x\<close> in one.
\<close>

theorem get_data_by_EmailAddress_witness:
  "fieldnames [[''EmailAddress'', ''Name''], [''a@x'', ''Al''], [''b@x'', ''Bob''], [''a@x'', ''Ann'']]
     = Some [''EmailAddress'', ''Name''] \<and>
   ''Group'' \<notin> set [''EmailAddress'', ''Name''] \<and>
   ''EmailAddress'' \<in> set [''EmailAddress'', ''Name''] \<and>
   get_data [[''EmailAddress'', ''Name''], [''a@x'', ''Al''], [''b@x'', ''Bob''], [''a@x'', ''Ann'']]
     = Inr [[(Col ''EmailAddress'', [Val ''a@x'', Val ''a@x'']), (Col ''Name'', [Val ''Al'', Val ''Ann''])],
            [(Col ''EmailAddress'', [Val ''b@x'']), (Col ''Name'', [Val ''Bob''])]]"
proof -
  let ?h = "[''EmailAddress'', ''Name'']"
  let ?recs = "[?h, [''a@x'', ''Al''], [''b@x'', ''Bob''], [''a@x'', ''Ann'']]"
  have f: "fieldnames ?recs = Some ?h" by (simp add: fieldnames_def)
  have g: "''Group'' \<notin> set ?h" by simp
  have e: "''EmailAddress'' \<in> set ?h" by simp
  have v: "get_data ?recs
     = Inr [[(Col ''EmailAddress'', [Val ''a@x'', Val ''a@x'']), (Col ''Name'', [Val ''Al'', Val ''Ann''])],
            [(Col ''EmailAddress'', [Val ''b@x'']), (Col ''Name'', [Val ''Bob''])]]"
    by code_simp
  from get_data_by_EmailAddress [OF f g e] f g e v show ?thesis by simp
qed

text \<open>
  C5 as stated fails: two rows with the same address give one mapping whose
  \<^verbatim>\<open>EmailAddress\<close> entry has two elements.
\<close>

theorem EmailAddress_entry_counterexample:
  "\<exists>m vs. get_data [[''EmailAddress'', ''Name''], [''a@x'', ''Al''], [''a@x'', ''Ann'']] = Inr [m] \<and>
     map_of m (Col ''EmailAddress'') = Some vs \<and> length vs = 2"
proof -
  have "get_data [[''EmailAddress'', ''Name''], [''a@x'', ''Al''], [''a@x'', ''Ann'']]
     = Inr [[(Col ''EmailAddress'', [Val ''a@x'', Val ''a@x'']), (Col ''Name'', [Val ''Al'', Val ''Ann''])]]"
    by code_simp
  then show ?thesis by simp
qed

text \<open>
  Claim C10, as amended. The grouping column is chosen by the exact name \<^verbatim>\<open>Group\<close>.
  For a header without a column of that exact name and with \<^verbatim>\<open>EmailAddress\<close>,
  \<^verbatim>\<open>get_data\<close> groups by \<^verbatim>\<open>EmailAddress\<close>, and every column \<open>c\<close> of the
  header, so also a column named \<^verbatim>\<open>group\<close> or \<^verbatim>\<open>GROUP\<close>, is kept in every mapping
  as an ordinary entry: the values of that column in the group's member rows, in row order.
\<close>

theorem group_column_other_casing:
  assumes "fieldnames recs = Some h" and "''Group'' \<notin> set h" and "''EmailAddress'' \<in> set h"
    and "c \<in> set h"
  shows "\<exists>ms. get_data recs = Inr ms \<and>
           ms = map (\<lambda>g. collect (members_of ''EmailAddress'' (dict_rows recs) g))
                  (first_seen (group_values ''EmailAddress'' (dict_rows recs))) \<and>
           (\<forall>g\<in>set (group_values ''EmailAddress'' (dict_rows recs)).
              \<exists>vs. map_of (collect (members_of ''EmailAddress'' (dict_rows recs) g)) (Col c) = Some vs \<and>
                   map Some vs =
                     map (\<lambda>r. map_of r (Col c)) (members_of ''EmailAddress'' (dict_rows recs) g)) \<and>
           (\<forall>m\<in>set ms. Col c \<in> set (keys m))"
proof -
  let ?rows = "dict_rows recs"
  let ?E = "''EmailAddress''"
  have ms: "get_data recs = Inr (grouped ?E ?rows)"
    by (rule get_data_EmailAddress_closed [OF assms(1-3)])
  have eq: "grouped ?E ?rows =
      map (\<lambda>g. collect (members_of ?E ?rows g)) (first_seen (group_values ?E ?rows))"
    by (simp add: grouped_def drop_group_def)
  have col: "\<forall>r\<in>set (members_of ?E ?rows g). map_of r (Col c) \<noteq> None" for g
    using members_of_subset [of ?E ?rows g] dict_rows_have_column [OF assms(1,4)] by blast
  have d: "\<forall>r\<in>set (members_of ?E ?rows g). distinct (map fst r)" for g
    using members_of_subset [of ?E ?rows g] dict_rows_distinct [of _ recs] by blast
  have entry: "\<exists>vs. map_of (collect (members_of ?E ?rows g)) (Col c) = Some vs \<and>
      map Some vs = map (\<lambda>r. map_of r (Col c)) (members_of ?E ?rows g)"
    if g: "g \<in> set (group_values ?E ?rows)" for g
    by (rule collect_column [OF d members_of_nonempty [OF g] col])
  have key: "Col c \<in> set (keys (collect (members_of ?E ?rows g)))"
    if g: "g \<in> set (group_values ?E ?rows)" for g
    by (rule column_in_collect [OF members_of_nonempty [OF g] col])
  from ms eq entry key show ?thesis by auto
qed

text \<open>
  C10 on the header \<^verbatim>\<open>group,EmailAddress\<close>: two addresses give two mappings, each
  with its \<^verbatim>\<open>group\<close> entry.
\<close>

theorem group_column_other_casing_witness:
  "fieldnames [[''group'', ''EmailAddress''], [''A'', ''a@x''], [''A'', ''b@x'']]
     = Some [''group'', ''EmailAddress''] \<and>
   ''Group'' \<notin> set [''group'', ''EmailAddress''] \<and>
   ''EmailAddress'' \<in> set [''group'', ''EmailAddress''] \<and>
   ''group'' \<in> set [''group'', ''EmailAddress''] \<and>
   get_data [[''group'', ''EmailAddress''], [''A'', ''a@x''], [''A'', ''b@x'']]
     = Inr [[(Col ''group'', [Val ''A'']), (Col ''EmailAddress'', [Val ''a@x''])],
            [(Col ''group'', [Val ''A'']), (Col ''EmailAddress'', [Val ''b@x''])]]"
proof -
  let ?h = "[''group'', ''EmailAddress'']"
  let ?recs = "[?h, [''A'', ''a@x''], [''A'', ''b@x'']]"
  have f: "fieldnames ?recs = Some ?h" by (simp add: fieldnames_def)
  have g: "''Group'' \<notin> set ?h" by simp
  have e: "''EmailAddress'' \<in> set ?h" by simp
  have c: "''group'' \<in> set ?h" by simp
  have v: "get_data ?recs
     = Inr [[(Col ''group'', [Val ''A'']), (Col ''EmailAddress'', [Val ''a@x''])],
            [(Col ''group'', [Val ''A'']), (Col ''EmailAddress'', [Val ''b@x''])]]"
    by code_simp
  from group_column_other_casing [OF f g e c] f g e c v show ?thesis by simp
qed

text \<open>
  C10 as stated fails for the header \<^verbatim>\<open>Group,group,EmailAddress\<close>, which has a column
  \<^verbatim>\<open>group\<close> together with \<^verbatim>\<open>EmailAddress\<close>: the rows are grouped by \<^verbatim>\<open>Group\<close>, so
  two rows with different addresses give one mapping.
\<close>

theorem Group_and_group_counterexample:
  "group_values ''EmailAddress''
     (dict_rows [[''Group'', ''group'', ''EmailAddress''], [''A'', ''x'', ''a@x''], [''A'', ''y'', ''b@x'']])
     = [Val ''a@x'', Val ''b@x''] \<and>
   get_data [[''Group'', ''group'', ''EmailAddress''], [''A'', ''x'', ''a@x''], [''A'', ''y'', ''b@x'']]
     = Inr [[(Col ''group'', [Val ''x'', Val ''y'']),
             (Col ''EmailAddress'', [Val ''a@x'', Val ''b@x''])]]"
  by code_simp

text \<open>
  Claim C7, as amended. For a table with a header that \<^verbatim>\<open>get_data\<close> accepts and in
  which no data row has more fields than the header, every mapping has the same key set,
  the header's columns without \<^verbatim>\<open>Group\<close>; the group of every mapping has at least one
  member row; and under every key the value has one element for each member row, the value
  of that column in that row, in row order (\<^verbatim>\<open>None\<close> where a row is shorter than the
  header).
\<close>

theorem consolidated_mappings_shape:
  fixes recs h ms
  defines "gb \<equiv> choose_groupby (Some h)"
    and "rows \<equiv> dict_rows recs"
  defines "gs \<equiv> first_seen (group_values gb rows)"
  assumes "fieldnames recs = Some h" and "get_data recs = Inr ms"
    and "list_all (\<lambda>r. length r \<le> length h) (tl recs)"
  shows "length ms = length gs \<and>
         (\<forall>i<length ms.
            members_of gb rows (gs ! i) \<noteq> [] \<and>
            set (keys (ms ! i)) = Col ` set h - {Col ''Group''} \<and>
            (\<forall>k\<in>set (keys (ms ! i)).
               \<exists>vs. map_of (ms ! i) k = Some vs \<and>
                  length vs = length (members_of gb rows (gs ! i)) \<and>
                  map Some vs = map (\<lambda>r. map_of r k) (members_of gb rows (gs ! i))))"
proof -
  have ms: "ms = map (\<lambda>g. drop_group gb (collect (members_of gb rows g))) gs"
    using get_data_Inr_closed [OF assms(5)] by (simp add: assms(4) gb_def rows_def gs_def grouped_def)
  have len: "length ms = length gs" by (simp add: ms)
  have shape: "members_of gb rows (gs ! i) \<noteq> [] \<and>
            set (keys (ms ! i)) = Col ` set h - {Col ''Group''} \<and>
            (\<forall>k\<in>set (keys (ms ! i)).
               \<exists>vs. map_of (ms ! i) k = Some vs \<and>
                  length vs = length (members_of gb rows (gs ! i)) \<and>
                  map Some vs = map (\<lambda>r. map_of r k) (members_of gb rows (gs ! i)))"
    if i: "i < length ms" for i
  proof -
    let ?g = "gs ! i"
    let ?grp = "members_of gb rows ?g"
    from i len have "?g \<in> set gs" by simp
    then have g: "?g \<in> set (group_values gb rows)" by (simp add: gs_def)
    have ne: "?grp \<noteq> []" by (rule members_of_nonempty [OF g])
    have sub: "set ?grp \<subseteq> set (dict_rows recs)"
      unfolding rows_def by (rule members_of_subset)
    have d: "\<forall>r\<in>set ?grp. distinct (map fst r)"
      using sub dict_rows_distinct [of _ recs] by blast
    have kr: "\<forall>r\<in>set ?grp. set (keys r) = Col ` set h"
      using sub keys_short_row [OF assms(4,6)] by blast
    from ne obtain r0 where "r0 \<in> set ?grp" by (cases ?grp) auto
    with kr have kc: "set (keys (collect ?grp)) = Col ` set h"
      by (auto simp: keys_collect)
    have mi: "ms ! i = drop_group gb (collect ?grp)"
      using i len by (simp add: ms)
    have keys_mi: "set (keys (ms ! i)) = Col ` set h - {Col ''Group''}"
    proof (cases "gb = ''Group''")
      case True
      then show ?thesis unfolding mi keys_drop_group kc by simp
    next
      case False
      then have "''Group'' \<notin> set h" unfolding gb_def by (rule choose_groupby_not_Group)
      then have "Col ''Group'' \<notin> Col ` set h" by auto
      with False show ?thesis unfolding mi keys_drop_group kc by simp
    qed
    have vals: "\<exists>vs. map_of (ms ! i) k = Some vs \<and> length vs = length ?grp \<and>
        map Some vs = map (\<lambda>r. map_of r k) ?grp"
      if k: "k \<in> set (keys (ms ! i))" for k
    proof -
      from k keys_mi have kh: "k \<in> Col ` set h" and kg: "k \<noteq> Col ''Group''" by auto
      have "\<forall>r\<in>set ?grp. map_of r k \<noteq> None"
      proof
        fix r assume "r \<in> set ?grp"
        with kr kh have "k \<in> set (keys r)" by simp
        then show "map_of r k \<noteq> None" by (simp add: keys_def map_of_eq_None_iff)
      qed
      from collect_column [OF d ne this] obtain vs where
        vs: "map_of (collect ?grp) k = Some vs" "map Some vs = map (\<lambda>r. map_of r k) ?grp"
        by blast
      from vs(2) have "length vs = length ?grp" by (metis length_map)
      with vs show ?thesis by (simp add: mi map_of_drop_group [OF kg])
    qed
    from ne keys_mi vals show ?thesis by blast
  qed
  from len shape show ?thesis by blast
qed

text \<open>
  C7 on a table whose second row has no \<^verbatim>\<open>Name\<close> field.
\<close>

theorem consolidated_mappings_shape_witness:
  "fieldnames [[''Group'', ''EmailAddress'', ''Name''], [''A'', ''a1@x'', ''Al''],
               [''A'', ''a2@x''], [''B'', ''b1@x'', ''Bob'']]
     = Some [''Group'', ''EmailAddress'', ''Name''] \<and>
   list_all (\<lambda>r. length r \<le> length [''Group'', ''EmailAddress'', ''Name''])
     (tl [[''Group'', ''EmailAddress'', ''Name''], [''A'', ''a1@x'', ''Al''],
          [''A'', ''a2@x''], [''B'', ''b1@x'', ''Bob'']]) \<and>
   get_data [[''Group'', ''EmailAddress'', ''Name''], [''A'', ''a1@x'', ''Al''],
             [''A'', ''a2@x''], [''B'', ''b1@x'', ''Bob'']]
     = Inr [[(Col ''EmailAddress'', [Val ''a1@x'', Val ''a2@x'']), (Col ''Name'', [Val ''Al'', NoneVal])],
            [(Col ''EmailAddress'', [Val ''b1@x'']), (Col ''Name'', [Val ''Bob''])]]"
proof -
  let ?h = "[''Group'', ''EmailAddress'', ''Name'']"
  let ?recs = "[?h, [''A'', ''a1@x'', ''Al''], [''A'', ''a2@x''], [''B'', ''b1@x'', ''Bob'']]"
  let ?ms = "[[(Col ''EmailAddress'', [Val ''a1@x'', Val ''a2@x'']), (Col ''Name'', [Val ''Al'', NoneVal])],
            [(Col ''EmailAddress'', [Val ''b1@x'']), (Col ''Name'', [Val ''Bob''])]]"
  have f: "fieldnames ?recs = Some ?h" by (simp add: fieldnames_def)
  have l: "list_all (\<lambda>r. length r \<le> length ?h) (tl ?recs)" by simp
  have v: "get_data ?recs = Inr ?ms"
    by code_simp
  from consolidated_mappings_shape [OF f v l] f l v show ?thesis by simp
qed

text \<open>
  C7 as stated fails for a row with more fields than the header: the reader keeps the
  extra fields under the key \<^verbatim>\<open>None\<close>, so the two mappings have different key sets,
  and the \<^verbatim>\<open>None\<close> entry of the first has one element for a group of two rows.
\<close>

theorem long_row_key_sets_counterexample:
  "\<exists>m1 m2 vs. get_data [[''EmailAddress''], [''a@x'', ''extra''], [''a@x''], [''b@x'']] = Inr [m1, m2] \<and>
     set (keys m1) \<noteq> set (keys m2) \<and>
     length (members_of ''EmailAddress''
               (dict_rows [[''EmailAddress''], [''a@x'', ''extra''], [''a@x''], [''b@x'']]) (Val ''a@x'')) = 2 \<and>
     map_of m1 RestKey = Some vs \<and> length vs = 1"
proof -
  have "get_data [[''EmailAddress''], [''a@x'', ''extra''], [''a@x''], [''b@x'']]
     = Inr [[(Col ''EmailAddress'', [Val ''a@x'', Val ''a@x'']), (RestKey, [ListVal [''extra'']])],
            [(Col ''EmailAddress'', [Val ''b@x''])]]"
    by code_simp
  moreover have "length (members_of ''EmailAddress''
               (dict_rows [[''EmailAddress''], [''a@x'', ''extra''], [''a@x''], [''b@x'']]) (Val ''a@x'')) = 2"
    by code_simp
  ultimately show ?thesis by (simp add: keys_def)
qed

subsection \<open>The composed message\<close>

text \<open>
  Claim C1, as amended. The HTML part of a sent message is the output of the Markdown
  converter, unchanged: the subject comment is taken out of the parsed document only, and
  that document is used for the plain-text part, which is the concatenation of all string
  nodes of the document except the extracted comment node (the first string node, in
  document order, that the filter of the search accepts).
\<close>

theorem html_part_is_converter_output:
  assumes "send env server sender recipients body = (None, server')"
  shows "\<exists>msg. outbox server' = outbox server @ [msg] \<and>
           html_part msg = gfm_to_html env body \<and>
           text_part msg =
             concat (map snd (remove_first (subject_like env)
               (all_strings (BeautifulSoup env (gfm_to_html env body)))))"
proof -
  from send_None [OF assms] obtain msg where
    msg: "compose env sender recipients body = Inr msg"
      "server' = server\<lparr>outbox := outbox server @ [msg]\<rparr>" by blast
  from msg(2) have "outbox server' = outbox server @ [msg]" by simp
  with compose_Inr(6,7) [OF msg(1)] show ?thesis by blast
qed

text \<open>
  C1 for the body \<^const>\<open>hello_body\<close>: the message has the subject \<^verbatim>\<open>Hello\<close>, the
  text \<^verbatim>\<open>Hi\<close> and the converter's HTML, comment included.
\<close>

theorem html_part_is_converter_output_witness:
  "send (libs_for hello_html hello_soup) new_session (lit ''me@x'') [Val ''a@x''] hello_body =
     (None, new_session\<lparr>outbox :=
        [\<lparr>msg_from = lit ''me@x'', msg_to = [Val ''a@x''], msg_subject = lit ''Hello'',
          text_part = lit ''Hi\<newline>'', html_part = hello_html\<rparr>]\<rparr>)"
proof -
  have s: "send (libs_for hello_html hello_soup) new_session (lit ''me@x'') [Val ''a@x''] hello_body =
     (None, new_session\<lparr>outbox :=
        [\<lparr>msg_from = lit ''me@x'', msg_to = [Val ''a@x''], msg_subject = lit ''Hello'',
          text_part = lit ''Hi\<newline>'', html_part = hello_html\<rparr>]\<rparr>)"
    by code_simp
  from html_part_is_converter_output [OF s] s show ?thesis by simp
qed

text \<open>
  C1 as stated fails: for \<^const>\<open>hello_body\<close> the document without the comment
  serialises to \<^verbatim>\<open><html><body><p>Hi</p>...\<close>, while the HTML part is the converter's
  output, which still begins with the subject comment.
\<close>

theorem html_part_keeps_comment_counterexample:
  "\<exists>msg. compose (libs_for hello_html hello_soup) (lit ''me@x'') [Val ''a@x''] hello_body = Inr msg \<and>
     find_string (subject_like (libs_for hello_html hello_soup)) hello_soup =
       Some (Comment, lit '' Subject: Hello '') \<and>
     serialize (extract_first (subject_like (libs_for hello_html hello_soup)) hello_soup) =
       lit ''<html><body><p>Hi</p>\<newline></body></html>'' \<and>
     html_part msg = lit ''<!-- Subject: Hello --><p>Hi</p>\<newline>'' \<and>
     html_part msg \<noteq> serialize (extract_first (subject_like (libs_for hello_html hello_soup)) hello_soup)"
proof -
  have "compose (libs_for hello_html hello_soup) (lit ''me@x'') [Val ''a@x''] hello_body =
      Inr \<lparr>msg_from = lit ''me@x'', msg_to = [Val ''a@x''], msg_subject = lit ''Hello'',
          text_part = lit ''Hi\<newline>'', html_part = lit ''<!-- Subject: Hello --><p>Hi</p>\<newline>''\<rparr>"
    by code_simp
  moreover have "find_string (subject_like (libs_for hello_html hello_soup)) hello_soup =
       Some (Comment, lit '' Subject: Hello '')"
    by code_simp
  moreover have "serialize (extract_first (subject_like (libs_for hello_html hello_soup)) hello_soup) =
       lit ''<html><body><p>Hi</p>\<newline></body></html>''"
    by code_simp
  moreover have "lit ''<!-- Subject: Hello --><p>Hi</p>\<newline>'' \<noteq>
       lit ''<html><body><p>Hi</p>\<newline></body></html>''"
    by code_simp
  ultimately show ?thesis by simp
qed

text \<open>
  Claim C3, as amended. For a message that is composed: the search either finds no
  subject-like string node, or finds the first one in document order, a comment whose
  trimmed, case-folded text starts with \<^verbatim>\<open>subject\<close>. The value assigned to
  \<^verbatim>\<open>Subject\<close> is empty in the first case; in the second it is the trimmed text after
  the first colon of the comment, or the whole trimmed comment when it has no colon. The
  Subject of the message is what the \<^verbatim>\<open>email\<close> library stores for that value.
\<close>

theorem subject_of_composed_message:
  fixes env :: libs and body :: unicode
  defines "soup \<equiv> BeautifulSoup env (gfm_to_html env body)"
  assumes "compose env sender recipients body = Inr msg"
  shows "case find_string (subject_like env) soup of
           None \<Rightarrow>
             \<not> list_ex (subject_like env) (all_strings soup) \<and>
             header_Subject env [] = Inr (msg_subject msg)
         | Some (k, s) \<Rightarrow>
             k = Comment \<and> startswith (str_casefold env (strip s)) (lit ''subject'') \<and>
             (\<exists>pre rest. all_strings soup = pre @ (k, s) # rest \<and>
                \<not> list_ex (subject_like env) pre) \<and>
             header_Subject env (strip (case after_first_colon s of Some t \<Rightarrow> t | None \<Rightarrow> s)) =
               Inr (msg_subject msg)"
proof (cases "find_string (subject_like env) soup")
  case None
  then have "List.find (subject_like env) (all_strings soup) = None"
    by (simp add: find_string_def)
  then have "\<not> list_ex (subject_like env) (all_strings soup)"
    by (auto simp: find_None_iff list_ex_iff)
  moreover have "header_Subject env [] = Inr (msg_subject msg)"
    using compose_Inr(3) [OF assms(2)] None by (simp add: fst_take_subject soup_def)
  ultimately show ?thesis using None by simp
next
  case (Some x)
  obtain k s where x: "x = (k, s)" by (cases x)
  from Some have "List.find (subject_like env) (all_strings soup) = Some x"
    by (simp add: find_string_def)
  from find_Some_split [OF this] obtain pre rest where
    split: "all_strings soup = pre @ x # rest" "\<not> list_ex (subject_like env) pre"
    and like: "subject_like env x"
    by blast
  have "header_Subject env (strip (case after_first_colon s of Some t \<Rightarrow> t | None \<Rightarrow> s)) =
      Inr (msg_subject msg)"
    using compose_Inr(3) [OF assms(2)] Some x by (simp add: fst_take_subject soup_def)
  with split like Some x show ?thesis by (auto simp: subject_like_def)
qed

text \<open>
  C3 for a comment \<^verbatim>\<open>SUBJECT: Hello: you\<close> (upper case, two colons), for a document
  without a comment, and for a comment that starts with a no-break space.
\<close>

theorem subject_of_composed_message_witness:
  "compose (libs_for (lit ''html'')
       [NavStr NavigableString (lit ''Dear all''), NavStr Comment (lit '' SUBJECT: Hello: you '')])
       (lit ''me@x'') [Val ''a@x''] (lit ''body'') =
     Inr \<lparr>msg_from = lit ''me@x'', msg_to = [Val ''a@x''], msg_subject = lit ''Hello: you'',
          text_part = lit ''Dear all'', html_part = lit ''html''\<rparr> \<and>
   find_string (subject_like (libs_for (lit ''html'')
       [NavStr NavigableString (lit ''Dear all''), NavStr Comment (lit '' SUBJECT: Hello: you '')]))
     [NavStr NavigableString (lit ''Dear all''), NavStr Comment (lit '' SUBJECT: Hello: you '')]
     = Some (Comment, lit '' SUBJECT: Hello: you '') \<and>
   compose (libs_for (lit ''html'') [NavStr NavigableString (lit ''Dear all'')])
       (lit ''me@x'') [Val ''a@x''] (lit ''body'') =
     Inr \<lparr>msg_from = lit ''me@x'', msg_to = [Val ''a@x''], msg_subject = [],
          text_part = lit ''Dear all'', html_part = lit ''html''\<rparr> \<and>
   compose (libs_for (lit ''html'') [NavStr Comment (160 # lit ''subject: Hi '')])
       (lit ''me@x'') [Val ''a@x''] (lit ''body'') =
     Inr \<lparr>msg_from = lit ''me@x'', msg_to = [Val ''a@x''], msg_subject = lit ''Hi'',
          text_part = [], html_part = lit ''html''\<rparr>"
proof -
  let ?soup = "[NavStr NavigableString (lit ''Dear all''), NavStr Comment (lit '' SUBJECT: Hello: you '')]"
  let ?env = "libs_for (lit ''html'') ?soup"
  have c: "compose ?env (lit ''me@x'') [Val ''a@x''] (lit ''body'') =
     Inr \<lparr>msg_from = lit ''me@x'', msg_to = [Val ''a@x''], msg_subject = lit ''Hello: you'',
          text_part = lit ''Dear all'', html_part = lit ''html''\<rparr>"
    by code_simp
  have f: "find_string (subject_like ?env) ?soup = Some (Comment, lit '' SUBJECT: Hello: you '')"
    by code_simp
  have n: "compose (libs_for (lit ''html'') [NavStr NavigableString (lit ''Dear all'')])
       (lit ''me@x'') [Val ''a@x''] (lit ''body'') =
     Inr \<lparr>msg_from = lit ''me@x'', msg_to = [Val ''a@x''], msg_subject = [],
          text_part = lit ''Dear all'', html_part = lit ''html''\<rparr>"
    by code_simp
  have b: "compose (libs_for (lit ''html'') [NavStr Comment (160 # lit ''subject: Hi '')])
       (lit ''me@x'') [Val ''a@x''] (lit ''body'') =
     Inr \<lparr>msg_from = lit ''me@x'', msg_to = [Val ''a@x''], msg_subject = lit ''Hi'',
          text_part = [], html_part = lit ''html''\<rparr>"
    by code_simp
  from subject_of_composed_message [OF c] subject_of_composed_message [OF n] c f n b
  show ?thesis by simp
qed

text \<open>
  C3 as stated fails: the comment \<^verbatim>\<open>subject Hello\<close> has no colon and the whole comment
  becomes the subject; for a comment whose text after the colon has two lines the library
  refuses the value and no message is composed; and for the text
  \<^verbatim>\<open>=?utf-8?q?Hello?=\<close> after the colon the Subject is \<^verbatim>\<open>Hello\<close>.
\<close>

theorem subject_without_colon_counterexample:
  "find_string (subject_like (libs_for (lit ''<!-- subject Hello -->'') [NavStr Comment (lit '' subject Hello '')]))
     [NavStr Comment (lit '' subject Hello '')]
     = Some (Comment, lit '' subject Hello '') \<and>
   after_first_colon (lit '' subject Hello '') = None \<and>
   compose (libs_for (lit ''<!-- subject Hello -->'') [NavStr Comment (lit '' subject Hello '')])
       (lit ''me@x'') [Val ''a@x''] (lit ''<!-- subject Hello -->'') =
     Inr \<lparr>msg_from = lit ''me@x'', msg_to = [Val ''a@x''], msg_subject = lit ''subject Hello'',
          text_part = [], html_part = lit ''<!-- subject Hello -->''\<rparr> \<and>
   compose (libs_for (lit ''<!-- subject: a\<newline>b -->'') [NavStr Comment (lit '' subject: a\<newline>b '')])
       (lit ''me@x'') [Val ''a@x''] (lit ''<!-- subject: a\<newline>b -->'') = Inl ValueError \<and>
   compose (libs_for (lit ''<!-- subject: =?utf-8?q?Hello?= -->'')
              [NavStr Comment (lit '' subject: =?utf-8?q?Hello?= '')])
       (lit ''me@x'') [Val ''a@x''] (lit ''<!-- subject: =?utf-8?q?Hello?= -->'') =
     Inr \<lparr>msg_from = lit ''me@x'', msg_to = [Val ''a@x''], msg_subject = lit ''Hello'',
          text_part = [], html_part = lit ''<!-- subject: =?utf-8?q?Hello?= -->''\<rparr>"
  by code_simp

text \<open>
  Claim C6, as amended. When the string nodes of the document are \<open>pre\<close>, then the
  first subject-like comment, then \<open>rest\<close>, the sent message takes its subject from that
  first comment; its plain-text part is the concatenation of \<open>pre\<close> and \<open>rest\<close>, so
  only the first comment is left out and the text of every later comment, subject-like or
  not, is part of it; and its HTML part is the converter's output.
\<close>

theorem only_first_subject_comment_extracted:
  assumes "all_strings (BeautifulSoup env (gfm_to_html env body)) = pre @ (Comment, s1) # rest"
    and "\<not> list_ex (subject_like env) pre" and "subject_like env (Comment, s1)"
    and "send env server sender recipients body = (None, server')"
  shows "\<exists>msg. outbox server' = outbox server @ [msg] \<and>
           header_Subject env (strip (case after_first_colon s1 of Some t \<Rightarrow> t | None \<Rightarrow> s1)) =
             Inr (msg_subject msg) \<and>
           text_part msg = concat (map snd (pre @ rest)) \<and>
           html_part msg = gfm_to_html env body \<and>
           (\<forall>s2. (Comment, s2) \<in> set rest \<longrightarrow> (\<exists>u v. text_part msg = u @ s2 @ v))"
proof -
  let ?soup = "BeautifulSoup env (gfm_to_html env body)"
  from send_None [OF assms(4)] obtain msg where
    msg: "compose env sender recipients body = Inr msg"
      "server' = server\<lparr>outbox := outbox server @ [msg]\<rparr>" by blast
  from msg(2) have out: "outbox server' = outbox server @ [msg]" by simp
  have found: "find_string (subject_like env) ?soup = Some (Comment, s1)"
    using find_remove_first_split(1) [OF assms(2,3)] by (simp add: find_string_def assms(1))
  have subj: "header_Subject env (strip (case after_first_colon s1 of Some t \<Rightarrow> t | None \<Rightarrow> s1)) =
      Inr (msg_subject msg)"
    using compose_Inr(3) [OF msg(1)] by (simp add: fst_take_subject found)
  have txt_eq: "text_part msg = concat (map snd (pre @ rest))"
    using compose_Inr(6) [OF msg(1)] find_remove_first_split(2) [OF assms(2,3)]
    by (simp add: assms(1))
  have html: "html_part msg = gfm_to_html env body"
    by (rule compose_Inr(7) [OF msg(1)])
  have occ: "\<exists>u v. text_part msg = u @ s2 @ v" if "(Comment, s2) \<in> set rest" for s2
  proof -
    from that obtain r1 r2 where "rest = r1 @ (Comment, s2) # r2"
      by (auto simp: in_set_conv_decomp)
    then have "text_part msg = concat (map snd (pre @ r1)) @ s2 @ concat (map snd r2)"
      by (simp add: txt_eq)
    then show ?thesis by blast
  qed
  from out subj txt_eq html occ show ?thesis by blast
qed

text \<open>
  C6 for a document with the comments \<^verbatim>\<open>subject: First\<close> and \<^verbatim>\<open>subject: Second\<close>.
\<close>

theorem only_first_subject_comment_extracted_witness:
  "all_strings two_subjects_soup =
     [] @ (Comment, lit '' subject: First '') #
       [(Comment, lit '' subject: Second ''), (NavigableString, lit ''Hi''),
        (NavigableString, lit ''\<newline>'')] \<and>
   \<not> list_ex (subject_like (libs_for two_subjects_html two_subjects_soup)) [] \<and>
   subject_like (libs_for two_subjects_html two_subjects_soup) (Comment, lit '' subject: First '') \<and>
   send (libs_for two_subjects_html two_subjects_soup) new_session (lit ''me@x'') [Val ''a@x'']
       (lit ''body'') =
     (None, new_session\<lparr>outbox :=
        [\<lparr>msg_from = lit ''me@x'', msg_to = [Val ''a@x''], msg_subject = lit ''First'',
          text_part = lit '' subject: Second Hi\<newline>'', html_part = two_subjects_html\<rparr>]\<rparr>)"
proof -
  let ?env = "libs_for two_subjects_html two_subjects_soup"
  have a: "all_strings (BeautifulSoup ?env (gfm_to_html ?env (lit ''body''))) =
     [] @ (Comment, lit '' subject: First '') #
       [(Comment, lit '' subject: Second ''), (NavigableString, lit ''Hi''),
        (NavigableString, lit ''\<newline>'')]"
    by code_simp
  have a': "all_strings two_subjects_soup =
     [] @ (Comment, lit '' subject: First '') #
       [(Comment, lit '' subject: Second ''), (NavigableString, lit ''Hi''),
        (NavigableString, lit ''\<newline>'')]"
    by code_simp
  have n: "\<not> list_ex (subject_like ?env) []" by simp
  have l: "subject_like ?env (Comment, lit '' subject: First '')" by code_simp
  have s: "send ?env new_session (lit ''me@x'') [Val ''a@x''] (lit ''body'') =
     (None, new_session\<lparr>outbox :=
        [\<lparr>msg_from = lit ''me@x'', msg_to = [Val ''a@x''], msg_subject = lit ''First'',
          text_part = lit '' subject: Second Hi\<newline>'', html_part = two_subjects_html\<rparr>]\<rparr>)"
    by code_simp
  from only_first_subject_comment_extracted [OF a n l s] a' n l s show ?thesis by simp
qed

text \<open>
  C6 as stated fails: both comments are subject-like, the subject is \<^verbatim>\<open>First\<close>, and
  the plain-text part starts with the text of the second comment.
\<close>

theorem second_subject_comment_in_text_counterexample:
  "\<exists>msg. compose (libs_for two_subjects_html two_subjects_soup) (lit ''me@x'') [Val ''a@x'']
            (lit ''body'') = Inr msg \<and>
     list_all (subject_like (libs_for two_subjects_html two_subjects_soup))
       [(Comment, lit '' subject: First ''), (Comment, lit '' subject: Second '')] \<and>
     msg_subject msg = lit ''First'' \<and>
     text_part msg = lit '' subject: Second '' @ lit ''Hi\<newline>''"
proof -
  have "compose (libs_for two_subjects_html two_subjects_soup) (lit ''me@x'') [Val ''a@x'']
            (lit ''body'') =
     Inr \<lparr>msg_from = lit ''me@x'', msg_to = [Val ''a@x''], msg_subject = lit ''First'',
          text_part = lit '' subject: Second Hi\<newline>'', html_part = two_subjects_html\<rparr>"
    by code_simp
  moreover have "list_all (subject_like (libs_for two_subjects_html two_subjects_soup))
       [(Comment, lit '' subject: First ''), (Comment, lit '' subject: Second '')]"
    by code_simp
  moreover have "lit '' subject: Second Hi\<newline>'' = lit '' subject: Second '' @ lit ''Hi\<newline>''"
    by code_simp
  ultimately show ?thesis by simp
qed

subsection \<open>Failure in a batch\<close>

text \<open>
  Claim C8, as amended. With a relay that accepts the connection and the login: when the
  groups \<open>pre\<close> have been sent and the next group fails with the error \<open>e\<close>, either
  at rendering or because the relay refuses its message, the batch ends there. The error
  that reaches the caller is \<open>e\<close>, unless the \<^verbatim>\<open>QUIT\<close> that closes the session
  fails: then it is the error of \<^verbatim>\<open>QUIT\<close>. The session keeps the outbox it had after
  \<open>pre\<close>: one message for each group of \<open>pre\<close>, in order, each the message composed
  for its group, nothing for the failing group or the groups \<open>post\<close> after it, and
  nothing at all when the failing group is the first.
\<close>

theorem batch_aborts_at_failing_group:
  fixes env :: libs and template :: template and username password :: unicode
    and sender :: "unicode option"
  defines "s0 \<equiv> new_session\<lparr>tls := True, logged_in := True\<rparr>"
  defines "from_addr \<equiv> (case sender of None \<Rightarrow> username | Some s \<Rightarrow> s)"
  assumes "smtp_connect env = None" and "smtp_starttls env = None"
    and "smtp_login env username password = None"
    and "send_rows env template from_addr s0 pre = (None, s1)"
    and "render template row = Inl e \<or>
         (\<exists>body recipients msg.
            render template row = Inr body \<and>
            map_of row (Col ''EmailAddress'') = Some recipients \<and>
            compose env from_addr recipients body = Inr msg \<and>
            smtp_send_message env s1 msg = Some e)"
  shows "send_batch env (pre @ row # post) template username password sender =
           (case smtp_quit env s1 of None \<Rightarrow> Some e | Some q \<Rightarrow> Some q, s1\<lparr>closed := True\<rparr>) \<and>
         list_all2 (\<lambda>row msg. \<exists>body recipients.
            render template row = Inr body \<and>
            map_of row (Col ''EmailAddress'') = Some recipients \<and>
            compose env from_addr recipients body = Inr msg) pre (outbox s1) \<and>
         length (outbox s1) = length pre \<and>
         (pre = [] \<longrightarrow> outbox s1 = [])"
proof -
  have step: "send_rows env template from_addr s1 (row # post) = (Some e, s1)"
    using assms(7)
  proof
    assume "render template row = Inl e"
    then show ?thesis by (rule send_rows_render_fails)
  next
    assume "\<exists>body recipients msg.
            render template row = Inr body \<and>
            map_of row (Col ''EmailAddress'') = Some recipients \<and>
            compose env from_addr recipients body = Inr msg \<and>
            smtp_send_message env s1 msg = Some e"
    then obtain body recipients msg where
      "render template row = Inr body" "map_of row (Col ''EmailAddress'') = Some recipients"
      "compose env from_addr recipients body = Inr msg" "smtp_send_message env s1 msg = Some e"
      by blast
    then show ?thesis by (rule send_rows_relay_refuses)
  qed
  with assms(6) have loop: "send_rows env template from_addr s0 (pre @ row # post) = (Some e, s1)"
    by (simp add: send_rows_append)
  have batch: "send_batch env (pre @ row # post) template username password sender =
      (case smtp_quit env s1 of None \<Rightarrow> Some e | Some q \<Rightarrow> Some q, s1\<lparr>closed := True\<rparr>)"
    using send_batch_connected [OF assms(3-5), of "pre @ row # post" template sender] loop
    by (simp add: quit_def s0_def from_addr_def split: option.splits)
  from send_rows_outbox [OF assms(6)] obtain msgs where
    msgs: "outbox s1 = outbox s0 @ msgs"
      "list_all2 (\<lambda>row msg. \<exists>body recipients.
            render template row = Inr body \<and>
            map_of row (Col ''EmailAddress'') = Some recipients \<and>
            compose env from_addr recipients body = Inr msg) pre msgs" by blast
  from msgs(1) have out: "outbox s1 = msgs" by (simp add: s0_def new_session_def)
  from msgs(2) have len: "length msgs = length pre" by (simp add: list_all2_lengthD)
  from batch msgs(2) out len show ?thesis by auto
qed

text \<open>
  C8 for three groups: with a template that fails for the second group, and with a relay
  that refuses the second message. In both runs one message is in the outbox and the
  batch ends with the error of the second group.
\<close>

theorem batch_aborts_at_failing_group_witness:
  "send_batch (libs_for (lit ''<p>Hi</p>'') [NavStr NavigableString (lit ''Hi'')])
     ([[(Col ''EmailAddress'', [Val ''a@x'']), (Col ''Name'', [Val ''Al''])]] @
       [(Col ''EmailAddress'', [Val ''b@x'']), (Col ''Name'', [Val ''Bob''])] #
       [[(Col ''EmailAddress'', [Val ''c@x'']), (Col ''Name'', [Val ''Cy''])]])
     bob_fails (lit ''me@x'') (lit ''pw'') None =
   (Some (TemplateError ''undefined''),
    \<lparr>tls = True, logged_in = True,
     outbox = [\<lparr>msg_from = lit ''me@x'', msg_to = [Val ''a@x''], msg_subject = [],
                text_part = lit ''Hi'', html_part = lit ''<p>Hi</p>''\<rparr>],
     closed = True\<rparr>) \<and>
   send_batch refusing_libs
     ([[(Col ''EmailAddress'', [Val ''a@x'']), (Col ''Name'', [Val ''Al''])]] @
       [(Col ''EmailAddress'', [Val ''b@x'']), (Col ''Name'', [Val ''Bob''])] #
       [[(Col ''EmailAddress'', [Val ''c@x'']), (Col ''Name'', [Val ''Cy''])]])
     (\<lambda>row. Inr (lit ''Hi'')) (lit ''me@x'') (lit ''pw'') None =
   (Some (TransportError ''refused''),
    \<lparr>tls = True, logged_in = True,
     outbox = [\<lparr>msg_from = lit ''me@x'', msg_to = [Val ''a@x''], msg_subject = [],
                text_part = lit ''Hi'', html_part = lit ''<p>Hi</p>''\<rparr>],
     closed = True\<rparr>)"
proof -
  let ?env = "libs_for (lit ''<p>Hi</p>'') [NavStr NavigableString (lit ''Hi'')]"
  let ?a = "[(Col ''EmailAddress'', [Val ''a@x'']), (Col ''Name'', [Val ''Al''])]"
  let ?b = "[(Col ''EmailAddress'', [Val ''b@x'']), (Col ''Name'', [Val ''Bob''])]"
  let ?c = "[(Col ''EmailAddress'', [Val ''c@x'']), (Col ''Name'', [Val ''Cy''])]"
  let ?hi = "(\<lambda>row. Inr (lit ''Hi'')) :: template"
  let ?m = "\<lparr>msg_from = lit ''me@x'', msg_to = [Val ''a@x''], msg_subject = [],
                text_part = lit ''Hi'', html_part = lit ''<p>Hi</p>''\<rparr>"
  let ?mb = "\<lparr>msg_from = lit ''me@x'', msg_to = [Val ''b@x''], msg_subject = [],
                text_part = lit ''Hi'', html_part = lit ''<p>Hi</p>''\<rparr>"
  let ?s1 = "\<lparr>tls = True, logged_in = True, outbox = [?m], closed = False\<rparr>"
  have c1: "smtp_connect ?env = None" by (simp add: libs_for_def)
  have c2: "smtp_starttls ?env = None" by (simp add: libs_for_def)
  have c3: "smtp_login ?env (lit ''me@x'') (lit ''pw'') = None" by (simp add: libs_for_def)
  have p: "send_rows ?env bob_fails (case None of None \<Rightarrow> lit ''me@x'' | Some s \<Rightarrow> s)
      (new_session\<lparr>tls := True, logged_in := True\<rparr>) [?a] = (None, ?s1)"
    by code_simp
  have f: "render bob_fails ?b = Inl (TemplateError ''undefined'')"
    by code_simp
  have q: "smtp_quit ?env ?s1 = None" by (simp add: libs_for_def)
  have d1: "smtp_connect refusing_libs = None" by (simp add: refusing_libs_def libs_for_def)
  have d2: "smtp_starttls refusing_libs = None" by (simp add: refusing_libs_def libs_for_def)
  have d3: "smtp_login refusing_libs (lit ''me@x'') (lit ''pw'') = None"
    by (simp add: refusing_libs_def libs_for_def)
  have p': "send_rows refusing_libs ?hi (case None of None \<Rightarrow> lit ''me@x'' | Some s \<Rightarrow> s)
      (new_session\<lparr>tls := True, logged_in := True\<rparr>) [?a] = (None, ?s1)"
    by code_simp
  have r1: "render ?hi ?b = Inr (lit ''Hi'')" by code_simp
  have r2: "map_of ?b (Col ''EmailAddress'') = Some [Val ''b@x'']" by simp
  have r3: "compose refusing_libs (case None of None \<Rightarrow> lit ''me@x'' | Some s \<Rightarrow> s) [Val ''b@x'']
      (lit ''Hi'') = Inr ?mb"
    by code_simp
  have r4: "smtp_send_message refusing_libs ?s1 ?mb = Some (TransportError ''refused'')"
    by (simp add: refusing_libs_def)
  have q': "smtp_quit refusing_libs ?s1 = None" by (simp add: refusing_libs_def libs_for_def)
  have f': "render ?hi ?b = Inl (TransportError ''refused'') \<or>
         (\<exists>body recipients msg.
            render ?hi ?b = Inr body \<and>
            map_of ?b (Col ''EmailAddress'') = Some recipients \<and>
            compose refusing_libs (case None of None \<Rightarrow> lit ''me@x'' | Some s \<Rightarrow> s) recipients body
              = Inr msg \<and>
            smtp_send_message refusing_libs ?s1 msg = Some (TransportError ''refused''))"
    using r1 r2 r3 r4 by blast
  from batch_aborts_at_failing_group [OF c1 c2 c3 p disjI1 [OF f], of "[?c]"]
    batch_aborts_at_failing_group [OF d1 d2 d3 p' f', of "[?c]"] q q'
  show ?thesis by simp
qed

text \<open>
  C8 as stated fails when the relay answers \<^verbatim>\<open>QUIT\<close> with an error: the template's
  error for the second group ends the loop, and the caller gets the error of \<^verbatim>\<open>QUIT\<close>.
\<close>

theorem failing_quit_replaces_error_counterexample:
  "render bob_fails [(Col ''EmailAddress'', [Val ''b@x'']), (Col ''Name'', [Val ''Bob''])]
     = Inl (TemplateError ''undefined'') \<and>
   send_batch bad_quit_libs
     [[(Col ''EmailAddress'', [Val ''a@x'']), (Col ''Name'', [Val ''Al''])],
      [(Col ''EmailAddress'', [Val ''b@x'']), (Col ''Name'', [Val ''Bob''])],
      [(Col ''EmailAddress'', [Val ''c@x'']), (Col ''Name'', [Val ''Cy''])]]
     bob_fails (lit ''me@x'') (lit ''pw'') None =
   (Some (TransportError ''SMTPResponseException''),
    \<lparr>tls = True, logged_in = True,
     outbox = [\<lparr>msg_from = lit ''me@x'', msg_to = [Val ''a@x''], msg_subject = [],
                text_part = lit ''Hi'', html_part = lit ''<p>Hi</p>''\<rparr>],
     closed = True\<rparr>)"
  by code_simp

end
